theory Spec2Isabelle
  imports Complex_Main "HOL-Library.Word"
begin

section \<open>JavaScript strings\<close>

text \<open>
  A JavaScript string is a sequence of UTF-16 code units; \<open>length\<close>, \<open>slice\<close>,
  \<open>startsWith\<close> and \<open>split\<close> all count code units. \<open>js\<close> embeds an ASCII literal.
\<close>

type_synonym jstring = "16 word list"

definition js :: "string \<Rightarrow> jstring" where
  "js s = map (\<lambda>c. of_nat (of_char c)) s"

definition LF :: "16 word" where
  "LF = 0x0A"

text \<open>The code units that \<open>String.prototype.trim\<close> removes: WhiteSpace and LineTerminator.\<close>

definition isWhiteSpace :: "16 word \<Rightarrow> bool" where
  "isWhiteSpace c =
     (c = 0x09 \<or> c = 0x0A \<or> c = 0x0B \<or> c = 0x0C \<or> c = 0x0D \<or> c = 0x20 \<or> c = 0xA0
      \<or> c = 0x1680 \<or> (0x2000 \<le> c \<and> c \<le> 0x200A) \<or> c = 0x2028 \<or> c = 0x2029
      \<or> c = 0x202F \<or> c = 0x205F \<or> c = 0x3000 \<or> c = 0xFEFF)"

definition trim :: "jstring \<Rightarrow> jstring" where
  "trim s = rev (dropWhile isWhiteSpace (rev (dropWhile isWhiteSpace s)))"

definition startsWith :: "jstring \<Rightarrow> jstring \<Rightarrow> bool" where
  "startsWith s p = (take (length p) s = p)"

definition endsWith :: "jstring \<Rightarrow> jstring \<Rightarrow> bool" where
  "endsWith s p = (length p \<le> length s \<and> drop (length s - length p) s = p)"

text \<open>\<open>s.slice(0, n)\<close> for a non-negative \<open>n\<close>.\<close>

definition slice0 :: "jstring \<Rightarrow> nat \<Rightarrow> jstring" where
  "slice0 s n = take n s"

text \<open>\<open>s.split(d)\<close> for a one-unit separator: always at least one piece.\<close>

fun split_on :: "16 word \<Rightarrow> jstring \<Rightarrow> jstring list" where
  "split_on d [] = [[]]"
| "split_on d (c # cs) =
     (if c = d then [] # split_on d cs
      else (case split_on d cs of [] \<Rightarrow> [[c]] | x # xs \<Rightarrow> (c # x) # xs))"

text \<open>\<open>xs.join(sep)\<close> on an array of strings.\<close>

fun join :: "jstring \<Rightarrow> jstring list \<Rightarrow> jstring" where
  "join sep [] = []"
| "join sep [x] = x"
| "join sep (x # y # ys) = x @ sep @ join sep (y # ys)"

section \<open>JSON values and \<open>JSON.parse\<close>\<close>

text \<open>
  The values \<open>JSON.parse\<close> can return. An object keeps its members in source order,
  duplicates included; a property read takes the last one, as \<open>JSON.parse\<close> does.
  A number is kept as the literal that denotes it: its IEEE-754 value is not computed here.
\<close>

datatype json =
    JNull
  | JBool bool
  | JNumber jstring
  | JString jstring
  | JArray "json list"
  | JObject "(jstring \<times> json) list"

datatype token =
    TLBracket | TRBracket | TLBrace | TRBrace | TComma | TColon
  | TString jstring | TNumber jstring | TTrue | TFalse | TNull

definition isDigit :: "16 word \<Rightarrow> bool" where
  "isDigit c = (0x30 \<le> c \<and> c \<le> 0x39)"

definition hexval :: "16 word \<Rightarrow> 16 word option" where
  "hexval c =
     (if 0x30 \<le> c \<and> c \<le> 0x39 then Some (c - 0x30)
      else if 0x41 \<le> c \<and> c \<le> 0x46 then Some (c - 0x37)
      else if 0x61 \<le> c \<and> c \<le> 0x66 then Some (c - 0x57)
      else None)"

definition hex4 :: "16 word \<Rightarrow> 16 word \<Rightarrow> 16 word \<Rightarrow> 16 word \<Rightarrow> 16 word option" where
  "hex4 a b c d =
     (case (hexval a, hexval b, hexval c, hexval d) of
        (Some x, Some y, Some z, Some w) \<Rightarrow> Some (x * 0x1000 + y * 0x100 + z * 0x10 + w)
      | _ \<Rightarrow> None)"

text \<open>The single-character escapes of a JSON string: \<open>\" \\ \/ \b \f \n \r \t\<close>.\<close>

definition simple_escape :: "16 word \<Rightarrow> 16 word option" where
  "simple_escape e =
     (if e = 0x22 then Some 0x22 else if e = 0x5C then Some 0x5C
      else if e = 0x2F then Some 0x2F else if e = 0x62 then Some 0x08
      else if e = 0x66 then Some 0x0C else if e = 0x6E then Some 0x0A
      else if e = 0x72 then Some 0x0D else if e = 0x74 then Some 0x09
      else None)"

text \<open>
  \<open>lex_string\<close> reads a string body, the opening quote already consumed, and returns the
  decoded contents with the input left after the closing quote.
\<close>

fun lex_string :: "jstring \<Rightarrow> (jstring \<times> jstring) option" where
  "lex_string [] = None"
| "lex_string (c # cs) =
     (if c = 0x22 then Some ([], cs)
      else if c = 0x5C then
        (case cs of
           [] \<Rightarrow> None
         | e # cs' \<Rightarrow>
             if e = 0x75 then
               (case cs' of
                  h1 # h2 # h3 # h4 # cs'' \<Rightarrow>
                    (case hex4 h1 h2 h3 h4 of
                       None \<Rightarrow> None
                     | Some u \<Rightarrow> map_option (\<lambda>(s, r). (u # s, r)) (lex_string cs''))
                | _ \<Rightarrow> None)
             else
               (case simple_escape e of
                  None \<Rightarrow> None
                | Some u \<Rightarrow> map_option (\<lambda>(s, r). (u # s, r)) (lex_string cs')))
      else if c < 0x20 then None
      else map_option (\<lambda>(s, r). (c # s, r)) (lex_string cs))"

text \<open>
  \<open>lex_number\<close> reads \<open>-?(0|[1-9][0-9]*)(\.[0-9]+)?([eE][+-]?[0-9]+)?\<close> and returns the
  literal with the rest of the input.
\<close>

definition lex_digits :: "jstring \<Rightarrow> (jstring \<times> jstring) option" where
  "lex_digits s =
     (let ds = takeWhile isDigit s in if ds = [] then None else Some (ds, dropWhile isDigit s))"

definition lex_frac :: "jstring \<Rightarrow> (jstring \<times> jstring) option" where
  "lex_frac s =
     (case s of
        c # r \<Rightarrow>
          if c = 0x2E then map_option (\<lambda>(ds, r'). (c # ds, r')) (lex_digits r)
          else Some ([], s)
      | [] \<Rightarrow> Some ([], s))"

definition lex_exp :: "jstring \<Rightarrow> (jstring \<times> jstring) option" where
  "lex_exp s =
     (case s of
        c # r \<Rightarrow>
          if c = 0x65 \<or> c = 0x45 then
            (case r of
               g # r' \<Rightarrow>
                 if g = 0x2B \<or> g = 0x2D
                 then map_option (\<lambda>(ds, r''). (c # g # ds, r'')) (lex_digits r')
                 else map_option (\<lambda>(ds, r''). (c # ds, r'')) (lex_digits r)
             | [] \<Rightarrow> None)
          else Some ([], s)
      | [] \<Rightarrow> Some ([], s))"

definition lex_number :: "jstring \<Rightarrow> (jstring \<times> jstring) option" where
  "lex_number s =
     (let (sign, s1) = (case s of c # r \<Rightarrow> if c = 0x2D then ([c], r) else ([], s) | [] \<Rightarrow> ([], s))
      in case lex_digits s1 of
           None \<Rightarrow> None
         | Some (ds, s2) \<Rightarrow>
             if 1 < length ds \<and> hd ds = 0x30 then None
             else
               (case lex_frac s2 of
                  None \<Rightarrow> None
                | Some (fr, s3) \<Rightarrow>
                    (case lex_exp s3 of
                       None \<Rightarrow> None
                     | Some (ex, s4) \<Rightarrow> Some (sign @ ds @ fr @ ex, s4))))"

lemma lex_string_length: "lex_string cs = Some (s, r) \<Longrightarrow> length r \<le> length cs"
proof (induction cs arbitrary: s r rule: lex_string.induct)
  case 1
  then show ?case by simp
next
  case (2 c cs)
  show ?case
  proof (cases "c = 0x22")
    case True
    with "2.prems" show ?thesis by simp
  next
    case notq: False
    show ?thesis
    proof (cases "c = 0x5C")
      case bs: True
      show ?thesis
      proof (cases cs)
        case Nil
        with bs notq "2.prems" show ?thesis by simp
      next
        case (Cons e cs')
        show ?thesis
        proof (cases "e = 0x75")
          case u: True
          from u Cons bs notq "2.prems" obtain h1 h2 h3 h4 cs'' v s' where
            c: "cs' = h1 # h2 # h3 # h4 # cs''" and h: "hex4 h1 h2 h3 h4 = Some v"
            and l: "lex_string cs'' = Some (s', r)"
            by (auto split: list.splits option.splits)
          from "2.IH"(1) [OF notq bs Cons u c refl refl refl h l] Cons c show ?thesis 
            by simp
        next
          case nu: False
          from nu Cons bs notq "2.prems" obtain v s' where
            h: "simple_escape e = Some v" and l: "lex_string cs' = Some (s', r)"
            by (auto split: option.splits)
          from "2.IH"(2) [OF notq bs Cons nu h l] Cons show ?thesis by simp
        qed
      qed
    next
      case nbs: False
      with notq "2.prems" obtain s' where ge: "\<not> c < 0x20" and l: "lex_string cs = Some (s', r)"
        by (auto split: if_splits)
      from "2.IH"(3) [OF notq nbs ge l] show ?thesis by simp
    qed
  qed
qed
lemma lex_digits_length: "lex_digits s = Some (ds, r) \<Longrightarrow> length r < length s"
proof -
  assume a: "lex_digits s = Some (ds, r)"
  then have "takeWhile isDigit s \<noteq> []" and r: "r = dropWhile isDigit s"
    by (auto simp: lex_digits_def Let_def split: if_splits)
  moreover have "length (takeWhile isDigit s) + length (dropWhile isDigit s) = length s"
    by (metis length_append takeWhile_dropWhile_id)
  ultimately show ?thesis by (cases "takeWhile isDigit s") auto
qed

lemma lex_frac_length: "lex_frac s = Some (fr, r) \<Longrightarrow> length r \<le> length s"
  by (auto simp: lex_frac_def split: list.splits if_splits dest!: lex_digits_length)

lemma lex_exp_length: "lex_exp s = Some (ex, r) \<Longrightarrow> length r \<le> length s"
  by (auto simp: lex_exp_def split: list.splits if_splits dest!: lex_digits_length)

lemma lex_number_length: "lex_number s = Some (n, r) \<Longrightarrow> length r < length s"
proof -
  assume a: "lex_number s = Some (n, r)"
  obtain sign s1 where s1: "(case s of c # r \<Rightarrow> if c = 0x2D then ([c], r) else ([], s) | [] \<Rightarrow> ([], s)) = (sign, s1)"
    by (cases "(case s of c # r \<Rightarrow> if c = 0x2D then ([c], r) else ([], s) | [] \<Rightarrow> ([], s))") auto
  then have l1: "length s1 \<le> length s"
    by (auto split: list.splits if_splits)
  from a s1 obtain ds s2 fr s3 ex where
    d: "lex_digits s1 = Some (ds, s2)" and f: "lex_frac s2 = Some (fr, s3)"
    and e: "lex_exp s3 = Some (ex, r)"
    by (auto simp: lex_number_def Let_def split: option.splits if_splits)
  from lex_digits_length [OF d] lex_frac_length [OF f] lex_exp_length [OF e] l1
  show ?thesis by simp
qed

text \<open>The tokens of a JSON text; \<open>None\<close> when some character starts no token.\<close>

function lex :: "jstring \<Rightarrow> token list option" where
  "lex [] = Some []"
| "lex (c # cs) =
     (if c = 0x20 \<or> c = 0x09 \<or> c = 0x0A \<or> c = 0x0D then lex cs
      else if c = 0x5B then map_option (Cons TLBracket) (lex cs)
      else if c = 0x5D then map_option (Cons TRBracket) (lex cs)
      else if c = 0x7B then map_option (Cons TLBrace) (lex cs)
      else if c = 0x7D then map_option (Cons TRBrace) (lex cs)
      else if c = 0x2C then map_option (Cons TComma) (lex cs)
      else if c = 0x3A then map_option (Cons TColon) (lex cs)
      else if c = 0x22 then
        (case lex_string cs of
           None \<Rightarrow> None
         | Some (s, r) \<Rightarrow> map_option (Cons (TString s)) (lex r))
      else if c = 0x2D \<or> isDigit c then
        (case lex_number (c # cs) of
           None \<Rightarrow> None
         | Some (n, r) \<Rightarrow> map_option (Cons (TNumber n)) (lex r))
      else if startsWith (c # cs) (js ''true'') then map_option (Cons TTrue) (lex (drop 3 cs))
      else if startsWith (c # cs) (js ''false'') then map_option (Cons TFalse) (lex (drop 4 cs))
      else if startsWith (c # cs) (js ''null'') then map_option (Cons TNull) (lex (drop 3 cs))
      else None)"
  by pat_completeness auto
termination
proof (relation "measure length", goal_cases)
  case 1
  then show ?case by simp
next
  case (9 c cs x2 x y)
  then show ?case using lex_string_length [of cs x y] by simp
next
  case (10 c cs x2 x y)
  then show ?case using lex_number_length [of "c # cs" x y] by simp
qed (simp_all (no_asm))

text \<open>
  The grammar is checked by a pushdown automaton over the tokens. A frame is an open array
  with its elements so far, or an open object with its members so far and the key whose
  value is being read; both lists are kept in reverse.
\<close>

datatype frame =
    InArray "json list"
  | InObject "(jstring \<times> json) list" "jstring option"

datatype pmode =
    WantValue
  | WantValueOrEnd
  | WantKeyOrEnd
  | WantKey
  | WantColon
  | AfterValue
  | Finished json

text \<open>A value is complete: it ends the text, or joins the innermost open container.\<close>

fun complete :: "json \<Rightarrow> frame list \<Rightarrow> (pmode \<times> frame list) option" where
  "complete v [] = Some (Finished v, [])"
| "complete v (InArray acc # st) = Some (AfterValue, InArray (v # acc) # st)"
| "complete v (InObject acc (Some k) # st) = Some (AfterValue, InObject ((k, v) # acc) None # st)"
| "complete v (InObject acc None # st) = None"

fun begin_value :: "token \<Rightarrow> frame list \<Rightarrow> (pmode \<times> frame list) option" where
  "begin_value TLBracket st = Some (WantValueOrEnd, InArray [] # st)"
| "begin_value TLBrace st = Some (WantKeyOrEnd, InObject [] None # st)"
| "begin_value (TString s) st = complete (JString s) st"
| "begin_value (TNumber n) st = complete (JNumber n) st"
| "begin_value TTrue st = complete (JBool True) st"
| "begin_value TFalse st = complete (JBool False) st"
| "begin_value TNull st = complete JNull st"
| "begin_value _ st = None"

fun close_array :: "frame list \<Rightarrow> (pmode \<times> frame list) option" where
  "close_array (InArray acc # st) = complete (JArray (rev acc)) st"
| "close_array _ = None"

fun close_object :: "frame list \<Rightarrow> (pmode \<times> frame list) option" where
  "close_object (InObject acc None # st) = complete (JObject (rev acc)) st"
| "close_object _ = None"

fun read_key :: "token \<Rightarrow> frame list \<Rightarrow> (pmode \<times> frame list) option" where
  "read_key (TString k) (InObject acc None # st) = Some (WantColon, InObject acc (Some k) # st)"
| "read_key _ _ = None"

fun pstep :: "pmode \<Rightarrow> frame list \<Rightarrow> token \<Rightarrow> (pmode \<times> frame list) option" where
  "pstep WantValue st t = begin_value t st"
| "pstep WantValueOrEnd st t = (if t = TRBracket then close_array st else begin_value t st)"
| "pstep WantKeyOrEnd st t = (if t = TRBrace then close_object st else read_key t st)"
| "pstep WantKey st t = read_key t st"
| "pstep WantColon st t = (if t = TColon then Some (WantValue, st) else None)"
| "pstep AfterValue st t =
     (if t = TComma then
        (case st of
           InArray acc # st' \<Rightarrow> Some (WantValue, st)
         | InObject acc k # st' \<Rightarrow> Some (WantKey, st)
         | [] \<Rightarrow> None)
      else if t = TRBracket then close_array st
      else if t = TRBrace then close_object st
      else None)"
| "pstep (Finished v) st t = None"

fun prun :: "pmode \<Rightarrow> frame list \<Rightarrow> token list \<Rightarrow> json option" where
  "prun m st [] = (case m of Finished v \<Rightarrow> (if st = [] then Some v else None) | _ \<Rightarrow> None)"
| "prun m st (t # ts) = (case pstep m st t of None \<Rightarrow> None | Some (m', st') \<Rightarrow> prun m' st' ts)"

text \<open>\<open>JSON.parse(s)\<close>: \<open>None\<close> stands for the SyntaxError it throws.\<close>

definition JSON_parse :: "jstring \<Rightarrow> json option" where
  "JSON_parse s = (case lex s of None \<Rightarrow> None | Some ts \<Rightarrow> prun WantValue [] ts)"

section \<open>JavaScript values\<close>

text \<open>
  A value in flight is a JSON value or \<open>undefined\<close> (\<open>None\<close>). The exceptions are the ones
  the two programs can meet.
\<close>

type_synonym jsval = "json option"

datatype exn =
    TypeError
  | SyntaxError
  | ReadError
  | PromptWriteError
  | ExecError
  | ExtractionTimeout
  | NetworkError
  | AutoMemError
  | WriteError

text \<open>
  The double a numeric literal denotes is outside this model. The two operations the
  programs apply to a parsed number are parameters: its truthiness (it is neither zero nor
  NaN) and \<open>Number.prototype.toString\<close>.
\<close>

record numops =
  num_truthy :: "jstring \<Rightarrow> bool"
  num_toString :: "jstring \<Rightarrow> jstring"

text \<open>
  \<open>v.k\<close> for the property names read here (\<open>type\<close>, \<open>message\<close>, \<open>role\<close>, \<open>content\<close>,
  \<open>text\<close>, \<open>tags\<close>, \<open>importance\<close>, \<open>candidates\<close>, \<open>parts\<close>), none of which is inherited or
  built in: on \<open>null\<close> and \<open>undefined\<close> a TypeError, on an object its last member of that
  name, on anything else \<open>undefined\<close>.
\<close>

fun get :: "jsval \<Rightarrow> jstring \<Rightarrow> exn + jsval" where
  "get None k = Inl TypeError"
| "get (Some JNull) k = Inl TypeError"
| "get (Some (JObject kvs)) k = Inr (map_of (rev kvs) k)"
| "get (Some v) k = Inr None"

fun truthy :: "numops \<Rightarrow> jsval \<Rightarrow> bool" where
  "truthy N None = False"
| "truthy N (Some JNull) = False"
| "truthy N (Some (JBool b)) = b"
| "truthy N (Some (JNumber n)) = num_truthy N n"
| "truthy N (Some (JString s)) = (s \<noteq> [])"
| "truthy N (Some (JArray xs)) = True"
| "truthy N (Some (JObject kvs)) = True"

text \<open>\<open>Array.isArray\<close>.\<close>

fun isArray :: "jsval \<Rightarrow> bool" where
  "isArray (Some (JArray xs)) = True"
| "isArray v = False"

text \<open>
  \<open>ToString\<close> of a JSON value throws a TypeError on an object with a member named
  \<open>toString\<close>, which hides the inherited method and cannot be called, and on an array
  that holds such an object; \<open>unprintable\<close> says so.
\<close>

fun unprintable :: "json \<Rightarrow> bool" where
  "unprintable (JObject kvs) = (js ''toString'' \<in> set (map fst kvs))"
| "unprintable (JArray xs) = list_ex unprintable xs"
| "unprintable v = False"

text \<open>
  \<open>ToString\<close> of a printable JSON value; an array prints its elements separated by
  commas, with \<open>null\<close> printed as the empty string.
\<close>

fun toString :: "numops \<Rightarrow> json \<Rightarrow> jstring" where
  "toString N JNull = js ''null''"
| "toString N (JBool b) = (if b then js ''true'' else js ''false'')"
| "toString N (JNumber n) = num_toString N n"
| "toString N (JString s) = s"
| "toString N (JArray xs) = join (js '','') (map (\<lambda>x. if x = JNull then [] else toString N x) xs)"
| "toString N (JObject kvs) = js ''[object Object]''"

text \<open>\<open>ToString\<close> throws on this value, \<open>undefined\<close> included (it prints as \<open>undefined\<close>).\<close>

fun cannot_print :: "jsval \<Rightarrow> bool" where
  "cannot_print None = False"
| "cannot_print (Some v) = unprintable v"

text \<open>\<open>xs.join(sep)\<close> on an array of values: \<open>null\<close> and \<open>undefined\<close> print as nothing.\<close>

definition array_join :: "numops \<Rightarrow> jstring \<Rightarrow> jsval list \<Rightarrow> exn + jstring" where
  "array_join N sep vs =
     (if list_ex cannot_print vs then Inl TypeError
      else Inr (join sep
             (map (\<lambda>v. case v of None \<Rightarrow> [] | Some JNull \<Rightarrow> [] | Some x \<Rightarrow> toString N x) vs)))"

text \<open>Iterating a string yields its code points: a surrogate pair is one element.\<close>

fun code_points :: "jstring \<Rightarrow> jstring list" where
  "code_points [] = []"
| "code_points [c] = [[c]]"
| "code_points (c # d # cs) =
     (if 0xD800 \<le> c \<and> c \<le> 0xDBFF \<and> 0xDC00 \<le> d \<and> d \<le> 0xDFFF
      then [c, d] # code_points cs
      else [c] # code_points (d # cs))"

section \<open>The batch reviewer: \<open>scripts/compound-review.js\<close>\<close>

subsection \<open>Configuration, environment and state\<close>

text \<open>
  The parsed command line. \<open>hours\<close> is \<open>None\<close> when \<open>parseInt\<close> gave NaN;
  \<open>specificSession\<close> is \<open>None\<close> when \<open>--session\<close> is absent.
\<close>

record config =
  hours :: "int option"
  dryRun :: bool
  specificSession :: "jstring option"
  verbose :: bool

text \<open>
  A directory entry as \<open>readdirSync(dir, {withFileTypes: true})\<close> lists it, with what
  \<open>statSync\<close> and a nested \<open>readdirSync\<close> answer for it: the modification time in
  milliseconds, or \<open>None\<close> when the call throws; for a directory its own entries, or \<open>None\<close>
  when it cannot be read. \<open>File\<close> is any entry for which \<open>isDirectory()\<close> is false.
\<close>

datatype fsnode =
    File jstring "real option"
  | Dir jstring "real option" "fsnode list option"

text \<open>What one run of \<open>pi\<close> does: the prompt file cannot be written, \<open>execSync\<close> throws
  (with the error's \<open>killed\<close> flag), or the standard output.\<close>

datatype exec_outcome =
    PromptWriteFails
  | ExecFails bool
  | Stdout jstring

text \<open>What one \<open>POST /memory\<close> does: \<open>fetch\<close> rejects, or a response with its \<open>ok\<close> flag and
  whether its body reads as JSON.\<close>

datatype http_outcome =
    FetchRejects
  | Response bool bool

text \<open>The body of a store request, before \<open>JSON.stringify\<close>; the timestamp is left out.\<close>

record request =
  req_content :: jsval
  req_type :: jsval
  req_importance :: jsval
  req_tags :: "json list"
  req_source :: jstring
  req_session_file :: jstring

text \<open>
  Everything outside the program. The answers of \<open>pi\<close> and of the store, and whether
  an append to the ledger file succeeds, may differ from call to call: they depend on the
  number of calls made before. The answer of \<open>pi\<close> is given for the conversation text
  placed in the fixed instruction template.
\<close>

record env =
  nops :: numops
  token_set :: bool
  pi_found :: bool
  health_ok :: bool
  now :: real
  sessions_dir :: jstring
  sessions_tree :: "fsnode list option"
  readFile :: "jstring \<Rightarrow> jstring option"
  pi_exec :: "nat \<Rightarrow> jstring \<Rightarrow> exec_outcome"
  post_memory :: "nat \<Rightarrow> request \<Rightarrow> http_outcome"
  append_ok :: "nat \<Rightarrow> jstring \<Rightarrow> bool"

record session =
  path :: jstring
  name :: jstring

record dated_session = session +
  mtime :: real

datatype log_event =
    LogBanner
  | LogHealth
  | LogFound nat
  | LogNotYetProcessed nat
  | LogNothingToProcess
  | LogProcessing jstring
  | LogDebug
  | LogDryRunHeader
  | LogMemoryHead json
  | LogMemoryDetail json
  | LogStoreFailed exn
  | LogError session exn
  | LogSummary nat nat "nat option"

text \<open>
  The state a run changes: the ledger file (\<open>None\<close> while it does not exist; reading it
  never fails), the store requests sent, the conversations sent to \<open>pi\<close>, the appends
  to the ledger file that were tried, and the log.
\<close>

record world =
  ledger :: "jstring option"
  store_calls :: "request list"
  llm_calls :: "jstring list"
  append_calls :: "jstring list"
  log :: "log_event list"

definition say :: "log_event \<Rightarrow> world \<Rightarrow> world" where
  "say ev w = w\<lparr>log := log w @ [ev]\<rparr>"

definition debug :: "config \<Rightarrow> world \<Rightarrow> world" where
  "debug C w = (if verbose C then say LogDebug w else w)"

subsection \<open>The ledger\<close>

text \<open>
  \<open>getProcessedSessions\<close>: the non-empty lines of the ledger file, none when the file
  is not there. A ledger file that is there is taken to be one that can be read.
\<close>

definition getProcessedSessions :: "world \<Rightarrow> jstring set" where
  "getProcessedSessions w =
     (case ledger w of
        None \<Rightarrow> {}
      | Some content \<Rightarrow> set (filter (\<lambda>l. l \<noteq> []) (split_on LF content)))"

text \<open>
  The file after an append that succeeds: a file that was missing is created. Whether
  \<open>appendFileSync\<close> succeeds is for the environment to say: it throws when the directory
  of the ledger is missing, when the file may not be written and when the disk is full,
  and then the file is left as it was.
\<close>

definition appendFile :: "jstring option \<Rightarrow> jstring \<Rightarrow> jstring option" where
  "appendFile f s = (case f of None \<Rightarrow> Some s | Some content \<Rightarrow> Some (content @ s))"

definition markSessionProcessed ::
  "config \<Rightarrow> env \<Rightarrow> jstring \<Rightarrow> world \<Rightarrow> (exn + unit) \<times> world" where
  "markSessionProcessed C E sessionPath w =
     (if \<not> dryRun C then
        (if append_ok E (length (append_calls w)) (sessionPath @ [LF])
         then (Inr (),
               w\<lparr>ledger := appendFile (ledger w) (sessionPath @ [LF]),
                 append_calls := append_calls w @ [sessionPath @ [LF]]\<rparr>)
         else (Inl WriteError, w\<lparr>append_calls := append_calls w @ [sessionPath @ [LF]]\<rparr>))
      else (Inr (), w))"

subsection \<open>Session discovery\<close>

text \<open>
  \<open>path.join(dir, name)\<close> for a normalised \<open>dir\<close> other than the root and a directory
  entry's name, which holds no separator.
\<close>

definition path_join :: "jstring \<Rightarrow> jstring \<Rightarrow> jstring" where
  "path_join dir nm = dir @ js ''/'' @ nm"

text \<open>\<open>Date.now() - hoursAgo * 60 * 60 * 1000\<close>, in exact arithmetic; NaN is \<open>None\<close>.\<close>

definition cutoff_of :: "real \<Rightarrow> int option \<Rightarrow> real option" where
  "cutoff_of t hoursAgo = map_option (\<lambda>h. t - real_of_int (h * 60 * 60 * 1000)) hoursAgo"

text \<open>\<open>stat.mtimeMs >= cutoff\<close>: false against NaN.\<close>

definition at_least :: "real \<Rightarrow> real option \<Rightarrow> bool" where
  "at_least m cutoff = (case cutoff of None \<Rightarrow> False | Some c \<Rightarrow> c \<le> m)"

text \<open>
  \<open>scanEntries\<close> is the loop of \<open>scanDir\<close> over the entries of one directory, and returns
  what it pushes on \<open>sessions\<close>, in order. The \<open>try\<close> of \<open>scanDir\<close> encloses the whole
  loop: when \<open>readdirSync\<close> throws nothing is pushed, and when \<open>statSync\<close> throws the loop
  over this directory ends there, with the earlier pushes kept. A nested \<open>scanDir\<close> never
  throws.
\<close>

fun scanEntries :: "real option \<Rightarrow> jstring \<Rightarrow> fsnode list \<Rightarrow> dated_session list" where
  "scanEntries cutoff dir [] = []"
| "scanEntries cutoff dir (Dir nm st sub # rest) =
     (if nm \<noteq> js ''subagent-artifacts'' then
        (case sub of
           None \<Rightarrow> []
         | Some entries \<Rightarrow> scanEntries cutoff (path_join dir nm) entries)
        @ scanEntries cutoff dir rest
      else if endsWith nm (js ''.jsonl'') then
        (case st of
           None \<Rightarrow> []
         | Some m \<Rightarrow>
             (if at_least m cutoff
              then [\<lparr>path = path_join dir nm, name = nm, mtime = m\<rparr>] else [])
             @ scanEntries cutoff dir rest)
      else scanEntries cutoff dir rest)"
| "scanEntries cutoff dir (File nm st # rest) =
     (if endsWith nm (js ''.jsonl'') then
        (case st of
           None \<Rightarrow> []
         | Some m \<Rightarrow>
             (if at_least m cutoff
              then [\<lparr>path = path_join dir nm, name = nm, mtime = m\<rparr>] else [])
             @ scanEntries cutoff dir rest)
      else scanEntries cutoff dir rest)"

definition scanDir :: "real option \<Rightarrow> jstring \<Rightarrow> fsnode list option \<Rightarrow> dated_session list" where
  "scanDir cutoff dir tree =
     (case tree of None \<Rightarrow> [] | Some entries \<Rightarrow> scanEntries cutoff dir entries)"

text \<open>
  \<open>sessions.sort((a, b) => b.mtime - a.mtime)\<close>: the sort is stable, so it is the stable
  sort on the negated time.
\<close>

definition findRecentSessions ::
  "real \<Rightarrow> jstring \<Rightarrow> fsnode list option \<Rightarrow> int option \<Rightarrow> dated_session list" where
  "findRecentSessions t baseDir tree hoursAgo =
     sort_key (\<lambda>s. - mtime s) (scanDir (cutoff_of t hoursAgo) baseDir tree)"

subsection \<open>Parsing a transcript\<close>

datatype role = User | Assistant

text \<open>An entry \<open>{role, text}\<close>; the field \<open>text\<close> is written \<open>etext\<close>.\<close>

record conv_entry =
  role :: role
  etext :: jstring

record conversation =
  entries :: "conv_entry list"
  turnCount :: nat

text \<open>
  \<open>msg.content.filter((c) => c.type === "text" && c.text)\<close>: reading \<open>c.type\<close> of a
  \<open>null\<close> element throws.
\<close>

fun filter_text :: "numops \<Rightarrow> json list \<Rightarrow> exn + json list" where
  "filter_text N [] = Inr []"
| "filter_text N (c # cs) =
     (case get (Some c) (js ''type'') of
        Inl e \<Rightarrow> Inl e
      | Inr ty \<Rightarrow>
          (case (if ty = Some (JString (js ''text'')) then get (Some c) (js ''text'') else Inr None) of
             Inl e \<Rightarrow> Inl e
           | Inr tx \<Rightarrow>
               (case filter_text N cs of
                  Inl e \<Rightarrow> Inl e
                | Inr r \<Rightarrow> Inr (if truthy N tx then c # r else r))))"

text \<open>\<open>.map((c) => c.text)\<close> on the elements kept, none of which is \<open>null\<close>.\<close>

definition text_of :: "json \<Rightarrow> jsval" where
  "text_of c = (case get (Some c) (js ''text'') of Inl e \<Rightarrow> None | Inr v \<Rightarrow> v)"

text \<open>The text of a message, from its \<open>content\<close>.\<close>

definition message_text :: "numops \<Rightarrow> jsval \<Rightarrow> exn + jstring" where
  "message_text N content =
     (case content of
        Some (JString s) \<Rightarrow> Inr s
      | Some (JArray cs) \<Rightarrow>
          (case filter_text N cs of
             Inl e \<Rightarrow> Inl e
           | Inr kept \<Rightarrow> array_join N [LF] (map text_of kept))
      | _ \<Rightarrow> Inr [])"

text \<open>
  The body of the \<open>try\<close> for one line, up to the test that guards the push: the role and
  the whole text of the entry to push, \<open>None\<close> when nothing is pushed, or the exception
  that the \<open>catch\<close> swallows.
\<close>

definition line_message :: "numops \<Rightarrow> jstring \<Rightarrow> exn + (role \<times> jstring) option" where
  "line_message N line =
     (case JSON_parse line of
        None \<Rightarrow> Inl SyntaxError
      | Some entry \<Rightarrow>
          (case get (Some entry) (js ''type'') of
             Inl e \<Rightarrow> Inl e
           | Inr ty \<Rightarrow>
               if ty \<noteq> Some (JString (js ''message'')) then Inr None
               else
                 (case get (Some entry) (js ''message'') of
                    Inl e \<Rightarrow> Inl e
                  | Inr msg \<Rightarrow>
                      if \<not> truthy N msg then Inr None
                      else
                        (case get msg (js ''content'') of
                           Inl e \<Rightarrow> Inl e
                         | Inr content \<Rightarrow>
                             (case message_text N content of
                                Inl e \<Rightarrow> Inl e
                              | Inr txt \<Rightarrow>
                                  if trim txt = [] then Inr None
                                  else
                                    (case get msg (js ''role'') of
                                       Inl e \<Rightarrow> Inl e
                                     | Inr r \<Rightarrow>
                                         if r = Some (JString (js ''user''))
                                         then Inr (Some (User, txt))
                                         else if r = Some (JString (js ''assistant''))
                                         then Inr (Some (Assistant, txt))
                                         else Inr None))))))"

text \<open>The loop over the lines, with the two variables it updates.\<close>

fun parse_lines :: "numops \<Rightarrow> jstring list \<Rightarrow> conv_entry list \<Rightarrow> nat \<Rightarrow> conversation" where
  "parse_lines N [] es tc = \<lparr>entries = es, turnCount = tc\<rparr>"
| "parse_lines N (line # rest) es tc =
     (case line_message N line of
        Inr (Some (r, txt)) \<Rightarrow>
          parse_lines N rest
            (es @ [\<lparr>role = r, etext = slice0 txt 2000\<rparr>])
            (if r = User then tc + 1 else tc)
      | _ \<Rightarrow> parse_lines N rest es tc)"

definition session_lines :: "jstring \<Rightarrow> jstring list" where
  "session_lines content = filter (\<lambda>l. l \<noteq> []) (split_on LF content)"

text \<open>\<open>parseSession\<close>: \<open>readFileSync\<close> stands outside every \<open>try\<close>, so its failure is thrown.\<close>

definition parseSession :: "env \<Rightarrow> jstring \<Rightarrow> exn + conversation" where
  "parseSession E sessionPath =
     (case readFile E sessionPath of
        None \<Rightarrow> Inl ReadError
      | Some content \<Rightarrow> Inr (parse_lines (nops E) (session_lines content) [] 0))"

subsection \<open>Formatting\<close>

definition role_upper :: "role \<Rightarrow> jstring" where
  "role_upper r = (case r of User \<Rightarrow> js ''USER'' | Assistant \<Rightarrow> js ''ASSISTANT'')"

definition formatConversation :: "conv_entry list \<Rightarrow> jstring" where
  "formatConversation es =
     join [LF, LF] (map (\<lambda>e. role_upper (role e) @ js '': '' @ etext e) es)"

subsection \<open>Extraction\<close>

text \<open>
  \<open>jsonText.replace(/^```(?:json)?\n?/, "")\<close> on a text that starts with the fence, then
  \<open>.replace(/\n?```$/, "")\<close>.
\<close>

definition strip_open :: "jstring \<Rightarrow> jstring" where
  "strip_open s =
     (let s1 = drop 3 s;
          s2 = (if startsWith s1 (js ''json'') then drop 4 s1 else s1)
      in if startsWith s2 [LF] then drop 1 s2 else s2)"

definition strip_close :: "jstring \<Rightarrow> jstring" where
  "strip_close s =
     (if endsWith s (LF # js ''```'') then take (length s - 4) s
      else if endsWith s (js ''```'') then take (length s - 3) s
      else s)"

definition strip_fence :: "jstring \<Rightarrow> jstring" where
  "strip_fence s = (if startsWith s (js ''```'') then strip_close (strip_open s) else s)"

text \<open>
  \<open>jsonText.match(/\[[\s\S]*\]/)\<close>: from the first \<open>[\<close> to the last \<open>]\<close> after it, or
  \<open>None\<close> for no match.
\<close>

definition match_array :: "jstring \<Rightarrow> jstring option" where
  "match_array s =
     (let r = dropWhile (\<lambda>c. c \<noteq> 0x5B) s;
          m = rev (dropWhile (\<lambda>c. c \<noteq> 0x5D) (rev r))
      in if m = [] then None else Some m)"

text \<open>The part of the \<open>try\<close> after \<open>execSync\<close> has returned \<open>stdout\<close>.\<close>

definition parse_response :: "jstring \<Rightarrow> exn + json list" where
  "parse_response stdout =
     (let jsonText = strip_fence (trim stdout) in
      case match_array jsonText of
        None \<Rightarrow> Inr []
      | Some m \<Rightarrow>
          (case JSON_parse m of
             None \<Rightarrow> Inl SyntaxError
           | Some (JArray memories) \<Rightarrow> Inr memories
           | Some _ \<Rightarrow> Inr []))"

text \<open>
  \<open>extractMemories\<close>. The \<open>catch\<close> turns an error whose \<open>killed\<close> flag is set into the
  timeout error and throws every other error again, the SyntaxError of \<open>JSON.parse\<close>
  included.
\<close>

definition extractMemories :: "env \<Rightarrow> jstring \<Rightarrow> world \<Rightarrow> (exn + json list) \<times> world" where
  "extractMemories E conversationText w =
     (let truncatedConversation = slice0 conversationText 15000 in
      case pi_exec E (length (llm_calls w)) truncatedConversation of
        PromptWriteFails \<Rightarrow> (Inl PromptWriteError, w)
      | ExecFails killed \<Rightarrow>
          (Inl (if killed then ExtractionTimeout else ExecError),
           w\<lparr>llm_calls := llm_calls w @ [truncatedConversation]\<rparr>)
      | Stdout out \<Rightarrow>
          (parse_response out, w\<lparr>llm_calls := llm_calls w @ [truncatedConversation]\<rparr>))"

subsection \<open>Storing\<close>

text \<open>\<open>[...(memory.tags || [])]\<close>: only an array or a string can be spread.\<close>

definition spread_tags :: "numops \<Rightarrow> jsval \<Rightarrow> exn + json list" where
  "spread_tags N t =
     (if \<not> truthy N t then Inr []
      else (case t of
              Some (JArray xs) \<Rightarrow> Inr xs
            | Some (JString s) \<Rightarrow> Inr (map JString (code_points s))
            | _ \<Rightarrow> Inl TypeError))"

text \<open>The request body; building it throws before \<open>fetch\<close> is called.\<close>

definition build_request :: "numops \<Rightarrow> json \<Rightarrow> jstring \<Rightarrow> exn + request" where
  "build_request N memory sessionPath =
     (case get (Some memory) (js ''content'') of
        Inl e \<Rightarrow> Inl e
      | Inr c \<Rightarrow>
          (case get (Some memory) (js ''type'') of
             Inl e \<Rightarrow> Inl e
           | Inr ty \<Rightarrow>
               (case get (Some memory) (js ''importance'') of
                  Inl e \<Rightarrow> Inl e
                | Inr imp \<Rightarrow>
                    (case get (Some memory) (js ''tags'') of
                       Inl e \<Rightarrow> Inl e
                     | Inr tg \<Rightarrow>
                         (case spread_tags N tg of
                            Inl e \<Rightarrow> Inl e
                          | Inr ts \<Rightarrow>
                              Inr \<lparr>req_content = c, req_type = ty, req_importance = imp,
                                   req_tags = ts @ [JString (js ''auto-extracted''),
                                                    JString (js ''compound-review'')],
                                   req_source = js ''compound-review'',
                                   req_session_file = sessionPath\<rparr>)))))"

text \<open>
  \<open>storeMemory\<close>: a response that is not \<open>ok\<close> is thrown as an error, and so is an \<open>ok\<close>
  response whose body \<open>response.json()\<close> cannot read.
\<close>

definition storeMemory :: "env \<Rightarrow> json \<Rightarrow> jstring \<Rightarrow> world \<Rightarrow> (exn + unit) \<times> world" where
  "storeMemory E memory sessionPath w =
     (case build_request (nops E) memory sessionPath of
        Inl e \<Rightarrow> (Inl e, w)
      | Inr rq \<Rightarrow>
          (case post_memory E (length (store_calls w)) rq of
             FetchRejects \<Rightarrow> Inl NetworkError
           | Response ok readable \<Rightarrow>
               if \<not> ok then Inl AutoMemError
               else if readable then Inr ()
               else Inl SyntaxError,
           w\<lparr>store_calls := store_calls w @ [rq]\<rparr>))"

text \<open>The loop of \<open>processSession\<close> over the memories, with its two counters.\<close>

fun store_all :: "env \<Rightarrow> json list \<Rightarrow> jstring \<Rightarrow> nat \<Rightarrow> nat \<Rightarrow> world \<Rightarrow> nat \<times> nat \<times> world" where
  "store_all E [] sessionPath stored failed w = (stored, failed, w)"
| "store_all E (memory # rest) sessionPath stored failed w =
     (case storeMemory E memory sessionPath w of
        (Inr u, w') \<Rightarrow> store_all E rest sessionPath (stored + 1) failed w'
      | (Inl e, w') \<Rightarrow> store_all E rest sessionPath stored (failed + 1) (say (LogStoreFailed e) w'))"

text \<open>\<open>m.k\<close> for an \<open>m\<close> that is not \<open>null\<close>.\<close>

definition field_of :: "json \<Rightarrow> jstring \<Rightarrow> jsval" where
  "field_of m k = (case get (Some m) k of Inl e \<Rightarrow> None | Inr v \<Rightarrow> v)"

text \<open>
  The dry-run listing, two log lines for each memory. Reading \<open>m.type\<close> of \<open>null\<close>
  throws; so does printing a field that cannot be printed; and so does
  \<open>(m.tags || []).join(", ")\<close> when \<open>m.tags\<close> is truthy and no array, or an array with an
  element that cannot be printed.
\<close>

fun dry_run_list :: "numops \<Rightarrow> json list \<Rightarrow> world \<Rightarrow> (exn + unit) \<times> world" where
  "dry_run_list N [] w = (Inr (), w)"
| "dry_run_list N (m # ms) w =
     (case get (Some m) (js ''type'') of
        Inl e \<Rightarrow> (Inl e, w)
      | Inr ty \<Rightarrow>
          if cannot_print ty \<or> cannot_print (field_of m (js ''content'')) then (Inl TypeError, w)
          else if cannot_print (field_of m (js ''importance''))
                  \<or> (truthy N (field_of m (js ''tags'')) \<and> \<not> isArray (field_of m (js ''tags'')))
                  \<or> cannot_print (field_of m (js ''tags''))
          then (Inl TypeError, say (LogMemoryHead m) w)
          else dry_run_list N ms (say (LogMemoryDetail m) (say (LogMemoryHead m) w)))"

subsection \<open>One session\<close>

text \<open>The object \<open>processSession\<close> returns; a field it does not set is \<open>None\<close>.\<close>

record session_result =
  skipped :: bool
  reason :: "jstring option"
  memories :: "nat option"
  isDryRun :: "bool option"
  stored :: "nat option"
  failed :: "nat option"

definition processSession ::
  "config \<Rightarrow> env \<Rightarrow> jstring \<Rightarrow> world \<Rightarrow> (exn + session_result) \<times> world" where
  "processSession C E sessionPath w0 =
     (let w = say (LogProcessing sessionPath) w0 in
      case parseSession E sessionPath of
        Inl e \<Rightarrow> (Inl e, w)
      | Inr conv \<Rightarrow>
          if turnCount conv < 3 then
            (Inr \<lparr>skipped = True, reason = Some (js ''too short''), memories = None,
                  isDryRun = None, stored = None, failed = None\<rparr>,
             debug C w)
          else
            (case extractMemories E (formatConversation (entries conv)) (debug C w) of
               (Inl e, w1) \<Rightarrow> (Inl e, w1)
             | (Inr mems, w1) \<Rightarrow>
                 if length mems = 0 then
                   (Inr \<lparr>skipped = False, reason = None, memories = Some 0,
                         isDryRun = None, stored = None, failed = None\<rparr>,
                    debug C w1)
                 else if dryRun C then
                   (case dry_run_list (nops E) mems (say LogDryRunHeader (debug C w1)) of
                      (Inl e, w2) \<Rightarrow> (Inl e, w2)
                    | (Inr u, w2) \<Rightarrow>
                        (Inr \<lparr>skipped = False, reason = None, memories = Some (length mems),
                              isDryRun = Some True, stored = None, failed = None\<rparr>,
                         w2))
                 else
                   (case store_all E mems sessionPath 0 0 (debug C w1) of
                      (st, fl, w2) \<Rightarrow>
                        (Inr \<lparr>skipped = False, reason = None, memories = Some (length mems),
                              isDryRun = None, stored = Some st, failed = Some fl\<rparr>,
                         w2))))"

subsection \<open>The run\<close>

text \<open>\<open>path.basename\<close>: the part after the last separator, trailing separators dropped.\<close>

definition basename :: "jstring \<Rightarrow> jstring" where
  "basename p =
     rev (takeWhile (\<lambda>c. c \<noteq> 0x2F) (dropWhile (\<lambda>c. c = 0x2F) (rev p)))"

text \<open>\<open>result.memories || 0\<close> and \<open>result.stored || 0\<close>.\<close>

definition or_zero :: "nat option \<Rightarrow> nat" where
  "or_zero v = (case v of None \<Rightarrow> 0 | Some n \<Rightarrow> n)"

text \<open>
  The loop of \<open>main\<close> over \<open>toProcess\<close>, with \<open>totalMemories\<close> and \<open>totalStored\<close>.
  The \<open>try\<close> encloses the mark as well: when the append throws, the error is logged like
  an error of the session, after the totals were raised.
\<close>

fun main_loop ::
  "config \<Rightarrow> env \<Rightarrow> session list \<Rightarrow> nat \<Rightarrow> nat \<Rightarrow> world \<Rightarrow> nat \<times> nat \<times> world" where
  "main_loop C E [] totalMemories totalStored w = (totalMemories, totalStored, w)"
| "main_loop C E (s # rest) totalMemories totalStored w =
     (case processSession C E (path s) w of
        (Inr result, w1) \<Rightarrow>
          if \<not> skipped result then
            (case markSessionProcessed C E (path s) w1 of
               (Inr u, w2) \<Rightarrow>
                 main_loop C E rest
                   (totalMemories + or_zero (memories result))
                   (totalStored + or_zero (stored result))
                   w2
             | (Inl e, w2) \<Rightarrow>
                 main_loop C E rest
                   (totalMemories + or_zero (memories result))
                   (totalStored + or_zero (stored result))
                   (say (LogError s e) w2))
          else main_loop C E rest totalMemories totalStored w1
      | (Inl e, w1) \<Rightarrow>
          main_loop C E rest totalMemories totalStored (say (LogError s e) w1))"

text \<open>The sessions to look at: the one named by \<open>--session\<close>, or the discovered ones.\<close>

definition find_sessions :: "config \<Rightarrow> env \<Rightarrow> world \<Rightarrow> session list \<times> world" where
  "find_sessions C E w =
     (case specificSession C of
        Some p \<Rightarrow>
          if p \<noteq> [] then ([\<lparr>path = p, name = basename p\<rparr>], w)
          else
            (let found = findRecentSessions (now E) (sessions_dir E) (sessions_tree E) (hours C)
             in (map session.truncate found, say (LogFound (length found)) w))
      | None \<Rightarrow>
          (let found = findRecentSessions (now E) (sessions_dir E) (sessions_tree E) (hours C)
           in (map session.truncate found, say (LogFound (length found)) w)))"

definition toProcess :: "session list \<Rightarrow> world \<Rightarrow> session list" where
  "toProcess sessions w = filter (\<lambda>s. path s \<notin> getProcessedSessions w) sessions"

datatype outcome = Exit nat | Returned

definition main :: "config \<Rightarrow> env \<Rightarrow> world \<Rightarrow> outcome \<times> world" where
  "main C E w0 =
     (let w = say LogBanner w0 in
      if \<not> token_set E then (Exit 1, w)
      else if \<not> pi_found E then (Exit 1, w)
      else if \<not> health_ok E then (Exit 1, w)
      else
        (case find_sessions C E (say LogHealth w) of
           (sessions, w1) \<Rightarrow>
             (let todo = toProcess sessions w1;
                  w2 = say (LogNotYetProcessed (length todo)) w1
              in if length todo = 0 then (Returned, say LogNothingToProcess w2)
                 else
                   (case main_loop C E todo 0 0 w2 of
                      (totalMemories, totalStored, w3) \<Rightarrow>
                        (Returned,
                         say (LogSummary (length todo) totalMemories
                                (if \<not> dryRun C then Some totalStored else None)) w3)))))"

section \<open>The live hook: the extension\<close>

subsection \<open>The conversation text\<close>

text \<open>
  The session entries as the extension declares them: an entry has a \<open>type\<close> and maybe
  \<open>data\<close>, read as a message with optional \<open>role\<close> and \<open>content\<close>; the content is a
  string or an array of blocks, each with a \<open>type\<close> and maybe a \<open>text\<close>.
\<close>

datatype block = Block jstring "jstring option"

datatype content = CString jstring | CBlocks "block list"

record message =
  msg_role :: "jstring option"
  msg_content :: "content option"

record live_entry =
  entry_type :: jstring
  entry_data :: "message option"

text \<open>\<open>!msg.content\<close>: a missing content and the empty string are falsy, an array never.\<close>

fun content_falsy :: "content option \<Rightarrow> bool" where
  "content_falsy None = True"
| "content_falsy (Some (CString s)) = (s = [])"
| "content_falsy (Some (CBlocks bs)) = False"

fun block_kept :: "block \<Rightarrow> bool" where
  "block_kept (Block ty tx) = (ty = js ''text'' \<and> (case tx of None \<Rightarrow> False | Some t \<Rightarrow> t \<noteq> []))"

fun block_text :: "block \<Rightarrow> jstring" where
  "block_text (Block ty tx) = (case tx of None \<Rightarrow> [] | Some t \<Rightarrow> t)"

fun content_text :: "content \<Rightarrow> jstring" where
  "content_text (CString s) = s"
| "content_text (CBlocks bs) = join [LF] (map block_text (filter block_kept bs))"

text \<open>The line pushed for a user message and for an assistant message.\<close>

definition user_line :: "jstring \<Rightarrow> jstring" where
  "user_line t = js ''USER: '' @ t"

definition assistant_line :: "jstring \<Rightarrow> jstring" where
  "assistant_line t =
     js ''ASSISTANT: '' @ (if 2000 < length t then slice0 t 2000 @ js ''...'' else t)"

text \<open>The loop of \<open>extractConversationText\<close>, with \<open>lines\<close> and \<open>turnCount\<close>.\<close>

fun conversation_lines :: "live_entry list \<Rightarrow> jstring list \<Rightarrow> nat \<Rightarrow> jstring list \<times> nat" where
  "conversation_lines [] ls tc = (ls, tc)"
| "conversation_lines (entry # rest) ls tc =
     (if entry_type entry \<noteq> js ''message'' then conversation_lines rest ls tc
      else case entry_data entry of
        None \<Rightarrow> conversation_lines rest ls tc
      | Some msg \<Rightarrow>
            (case msg_role msg of
               None \<Rightarrow> conversation_lines rest ls tc
             | Some r \<Rightarrow>
                 if r = [] \<or> content_falsy (msg_content msg) then conversation_lines rest ls tc
                 else
                   (case msg_content msg of
                      None \<Rightarrow> conversation_lines rest ls tc
                    | Some c \<Rightarrow>
                        if trim (content_text c) = [] then conversation_lines rest ls tc
                        else if r = js ''user''
                        then conversation_lines rest (ls @ [user_line (content_text c)]) (tc + 1)
                        else if r = js ''assistant''
                        then conversation_lines rest (ls @ [assistant_line (content_text c)]) tc
                        else conversation_lines rest ls tc)))"

record live_conversation =
  lc_text :: jstring
  lc_turnCount :: nat

definition extractConversationText :: "live_entry list \<Rightarrow> live_conversation" where
  "extractConversationText es =
     (case conversation_lines es [] 0 of
        (ls, tc) \<Rightarrow> \<lparr>lc_text = join [LF, LF] ls, lc_turnCount = tc\<rparr>)"

subsection \<open>Extraction through the network\<close>

text \<open>
  What the model request does: \<open>fetch\<close> rejects, or a response with its \<open>ok\<close> flag and
  its body as \<open>response.json()\<close> reads it (\<open>None\<close> when that rejects).
\<close>

datatype gemini_outcome =
    GFetchRejects
  | GResponse bool "json option"

text \<open>\<open>v?.[0]\<close> and \<open>v?.k\<close>: \<open>undefined\<close> on \<open>null\<close> and \<open>undefined\<close>, never an error.\<close>

fun opt_index0 :: "jsval \<Rightarrow> jsval" where
  "opt_index0 (Some (JArray (x # xs))) = Some x"
| "opt_index0 (Some (JString (c # cs))) = Some (JString [c])"
| "opt_index0 (Some (JObject kvs)) = map_of (rev kvs) (js ''0'')"
| "opt_index0 v = None"

definition opt_get :: "jsval \<Rightarrow> jstring \<Rightarrow> jsval" where
  "opt_get v k = (case get v k of Inl e \<Rightarrow> None | Inr r \<Rightarrow> r)"

text \<open>\<open>data.candidates?.[0]?.content?.parts?.[0]?.text\<close>: only the first read can throw.\<close>

definition candidate_text :: "json \<Rightarrow> exn + jsval" where
  "candidate_text data =
     (case get (Some data) (js ''candidates'') of
        Inl e \<Rightarrow> Inl e
      | Inr cands \<Rightarrow>
          Inr (opt_get (opt_index0 (opt_get (opt_get (opt_index0 cands) (js ''content''))
                                      (js ''parts'')))
                 (js ''text'')))"

text \<open>The lines from \<open>text.trim()\<close> to the \<open>return\<close>, on the text of the response.\<close>

definition parse_model_text :: "jstring \<Rightarrow> exn + json list" where
  "parse_model_text t =
     (case JSON_parse (strip_fence (trim t)) of
        None \<Rightarrow> Inl SyntaxError
      | Some (JArray ms) \<Rightarrow> Inr ms
      | Some _ \<Rightarrow> Inr [])"

text \<open>
  The body of the \<open>try\<close>. A truthy text that is no string has no \<open>trim\<close> method:
  TypeError.
\<close>

definition gemini_try :: "numops \<Rightarrow> gemini_outcome \<Rightarrow> exn + json list" where
  "gemini_try N out =
     (case out of
        GFetchRejects \<Rightarrow> Inl NetworkError
      | GResponse ok body \<Rightarrow>
          if \<not> ok then Inr []
          else
            (case body of
               None \<Rightarrow> Inl SyntaxError
             | Some data \<Rightarrow>
                 (case candidate_text data of
                    Inl e \<Rightarrow> Inl e
                  | Inr v \<Rightarrow>
                      if \<not> truthy N v then parse_model_text []
                      else (case v of
                              Some (JString t) \<Rightarrow> parse_model_text t
                            | _ \<Rightarrow> Inl TypeError))))"

text \<open>
  \<open>callGeminiForExtraction\<close>: without a key the empty array, and the \<open>catch\<close> returns the
  empty array for whatever the \<open>try\<close> throws. The model answers to the first 30000 units
  of the conversation, placed in the fixed instruction template.
\<close>

definition callGeminiForExtraction ::
  "numops \<Rightarrow> bool \<Rightarrow> (jstring \<Rightarrow> gemini_outcome) \<Rightarrow> jstring \<Rightarrow> exn + json list" where
  "callGeminiForExtraction N key_set gemini conversationText =
     (if \<not> key_set then Inr []
      else (case gemini_try N (gemini (slice0 conversationText 30000)) of
              Inl e \<Rightarrow> Inr []
            | Inr ms \<Rightarrow> Inr ms))"

subsection \<open>Storing from the hook\<close>

record live_request =
  lr_content :: jsval
  lr_type :: jsval
  lr_importance :: jsval
  lr_tags :: "json list"
  lr_source :: jstring
  lr_session_id :: "jstring option"
  lr_session_file :: "jstring option"
  lr_cwd :: jstring

text \<open>\<open>[...memory.tags, "auto-extracted"]\<close>: there is no default for missing tags.\<close>

definition spread_live :: "jsval \<Rightarrow> exn + json list" where
  "spread_live t =
     (case t of
        Some (JArray xs) \<Rightarrow> Inr xs
      | Some (JString s) \<Rightarrow> Inr (map JString (code_points s))
      | _ \<Rightarrow> Inl TypeError)"

definition build_live_request ::
  "json \<Rightarrow> jstring option \<Rightarrow> jstring option \<Rightarrow> jstring \<Rightarrow> exn + live_request" where
  "build_live_request memory sessionId sessionFile cwd =
     (case get (Some memory) (js ''content'') of
        Inl e \<Rightarrow> Inl e
      | Inr c \<Rightarrow>
          (case get (Some memory) (js ''type'') of
             Inl e \<Rightarrow> Inl e
           | Inr ty \<Rightarrow>
               (case get (Some memory) (js ''importance'') of
                  Inl e \<Rightarrow> Inl e
                | Inr imp \<Rightarrow>
                    (case get (Some memory) (js ''tags'') of
                       Inl e \<Rightarrow> Inl e
                     | Inr tg \<Rightarrow>
                         (case spread_live tg of
                            Inl e \<Rightarrow> Inl e
                          | Inr ts \<Rightarrow>
                              Inr \<lparr>lr_content = c, lr_type = ty, lr_importance = imp,
                                   lr_tags = ts @ [JString (js ''auto-extracted'')],
                                   lr_source = js ''session-extraction'',
                                   lr_session_id = sessionId,
                                   lr_session_file = sessionFile,
                                   lr_cwd = cwd\<rparr>)))))"




section \<open>Auxiliary definitions for the properties\<close>

subsection \<open>Entries and their whole text\<close>

text \<open>The entries the batch parser pushes for a list of lines, with their whole text.\<close>

definition pushed :: "numops \<Rightarrow> jstring list \<Rightarrow> (role \<times> jstring) list" where
  "pushed N ls =
     List.map_filter (\<lambda>l. case line_message N l of Inr (Some x) \<Rightarrow> Some x | _ \<Rightarrow> None) ls"

text \<open>The messages the live hook renders for a list of entries, with their whole text.\<close>

definition live_message :: "live_entry \<Rightarrow> (role \<times> jstring) option" where
  "live_message e =
     (if entry_type e \<noteq> js ''message'' then None
      else case entry_data e of
        None \<Rightarrow> None
      | Some msg \<Rightarrow>
          (case (msg_role msg, msg_content msg) of
             (Some r, Some c) \<Rightarrow>
               if r = [] \<or> content_falsy (Some c) \<or> trim (content_text c) = [] then None
               else if r = js ''user'' then Some (User, content_text c)
               else if r = js ''assistant'' then Some (Assistant, content_text c)
               else None
           | _ \<Rightarrow> None))"

definition live_messages :: "live_entry list \<Rightarrow> (role \<times> jstring) list" where
  "live_messages es = List.map_filter live_message es"

definition live_line :: "role \<times> jstring \<Rightarrow> jstring" where
  "live_line m =
     (case m of
        (User, t) \<Rightarrow> js ''USER: '' @ t
      | (Assistant, t) \<Rightarrow>
          js ''ASSISTANT: '' @ (if 2000 < length t then take 2000 t @ js ''...'' else t))"

text \<open>A live entry with a user message of 5000 code units.\<close>

definition big_user_entry :: live_entry where
  "big_user_entry =
     \<lparr>entry_type = js ''message'',
      entry_data = Some \<lparr>msg_role = Some (js ''user''),
                         msg_content = Some (CString (replicate 5000 0x61))\<rparr>\<rparr>"

subsection \<open>Traces, ledger lines, listings and loop steps\<close>

text \<open>The paths on which \<open>processSession\<close> was started, as the log records them.\<close>

definition started :: "world \<Rightarrow> jstring list" where
  "started w =
     List.map_filter (\<lambda>ev. case ev of LogProcessing q \<Rightarrow> Some q | _ \<Rightarrow> None) (log w)"



definition file_lines :: "jstring option \<Rightarrow> jstring set" where
  "file_lines f =
     (case f of None \<Rightarrow> {} | Some c \<Rightarrow> set (filter (\<lambda>l. l \<noteq> []) (split_on LF c)))"

text \<open>
  The transcripts below a directory, as the specification words them: every entry that is
  no directory and whose name ends in \<open>.jsonl\<close>, in this directory and, in turn, in each
  readable subdirectory not named \<open>subagent-artifacts\<close>; each with its path, its name
  and what \<open>statSync\<close> answers for it.
\<close>

fun transcripts :: "jstring \<Rightarrow> fsnode list \<Rightarrow> (jstring \<times> jstring \<times> real option) list" where
  "transcripts dir [] = []"
| "transcripts dir (File nm st # rest) =
     (if endsWith nm (js ''.jsonl'') then [(path_join dir nm, nm, st)] else [])
     @ transcripts dir rest"
| "transcripts dir (Dir nm st sub # rest) =
     (if nm \<noteq> js ''subagent-artifacts''
      then (case sub of None \<Rightarrow> [] | Some sub_entries \<Rightarrow> transcripts (path_join dir nm) sub_entries)
      else [])
     @ transcripts dir rest"

text \<open>Those of them modified at or after the cutoff.\<close>

definition recent ::
  "real option \<Rightarrow> (jstring \<times> jstring \<times> real option) list \<Rightarrow> dated_session list" where
  "recent cutoff xs =
     List.map_filter
       (\<lambda>(p, nm, st). case st of
           None \<Rightarrow> None
         | Some m \<Rightarrow> if at_least m cutoff then Some \<lparr>path = p, name = nm, mtime = m\<rparr> else None)
       xs"

definition all_stats :: "(jstring \<times> jstring \<times> real option) list \<Rightarrow> bool" where
  "all_stats xs = list_all (\<lambda>(p, nm, st). st \<noteq> None) xs"

text \<open>The body of a model response whose first candidate holds the text \<open>t\<close>.\<close>

definition gemini_body :: "jstring \<Rightarrow> json" where
  "gemini_body t =
     JObject [(js ''candidates'',
       JArray [JObject [(js ''content'',
         JObject [(js ''parts'', JArray [JObject [(js ''text'', JString t)]])])]])]"

text \<open>An answer of the model that is a sentence, and one whose elements are malformed.\<close>

definition bad_reply :: jstring where
  "bad_reply = js ''I found [nothing] worth remembering.''"

definition unchecked_reply :: jstring where
  "unchecked_reply = js ''[{\"type\":\"Insight\"},{\"content\":\"\",\"importance\":\"high\"},7]''"

text \<open>The file after the lines of these paths were appended, one after the other.\<close>

definition append_lines :: "jstring option \<Rightarrow> jstring list \<Rightarrow> jstring option" where
  "append_lines f ps = foldl (\<lambda>g p. appendFile g (p @ [LF])) f ps"

text \<open>
  The requests of the memories for which a request can be built, in order: on the batch
  path, and on the live path.
\<close>

definition requests_of :: "numops \<Rightarrow> json list \<Rightarrow> jstring \<Rightarrow> request list" where
  "requests_of N ms p =
     List.map_filter
       (\<lambda>m. case build_request N m p of Inl e \<Rightarrow> None | Inr rq \<Rightarrow> Some rq) ms"

definition live_requests_of ::
  "json list \<Rightarrow> jstring option \<Rightarrow> jstring option \<Rightarrow> jstring \<Rightarrow> live_request list" where
  "live_requests_of ms sid sf cwd =
     List.map_filter
       (\<lambda>m. case build_live_request m sid sf cwd of Inl e \<Rightarrow> None | Inr rq \<Rightarrow> Some rq) ms"




subsection \<open>An example run\<close>

text \<open>
  A transcript with three user turns and two assistant turns, a reply of the model with
  three memories, a store that refuses the second request it gets, and a ledger file that
  can be written. The transcript and the reply hold no number where its truthiness or its
  printed form is used.
\<close>

definition user_record :: jstring where
  "user_record = js ''{\"type\":\"message\",\"message\":{\"role\":\"user\",\"content\":\"use postgres\"}}''"

definition assistant_record :: jstring where
  "assistant_record =
     js ''{\"type\":\"message\",\"message\":{\"role\":\"assistant\",\"content\":[{\"type\":\"text\",\"text\":\"ok\"}]}}''"

definition example_transcript :: jstring where
  "example_transcript =
     user_record @ [LF] @ assistant_record @ [LF] @ user_record @ [LF] @ assistant_record
     @ [LF] @ user_record @ [LF]"

definition example_path :: jstring where
  "example_path = js ''/home/u/.pi/agent/sessions/p/s1.jsonl''"

definition example_reply :: jstring where
  "example_reply =
     js ''[{\"content\":\"A\",\"type\":\"Decision\",\"tags\":[\"db\"]},{\"content\":\"B\",\"type\":\"Insight\"},{\"content\":\"C\",\"type\":\"Context\",\"tags\":[]}]''"

definition example_numops :: numops where
  "example_numops = \<lparr>num_truthy = (\<lambda>n. True), num_toString = (\<lambda>n. n)\<rparr>"

definition example_env :: env where
  "example_env =
     \<lparr>nops = example_numops,
      token_set = True, pi_found = True, health_ok = True,
      now = 1000000000,
      sessions_dir = js ''/home/u/.pi/agent/sessions'',
      sessions_tree = Some [Dir (js ''p'') None (Some [File (js ''s1.jsonl'') (Some 999999000)])],
      readFile = (\<lambda>p. if p = example_path then Some example_transcript else None),
      pi_exec = (\<lambda>n t. Stdout example_reply),
      post_memory = (\<lambda>n r. if n = 1 then Response False True else Response True True),
      append_ok = (\<lambda>n l. True)\<rparr>"

definition example_config :: config where
  "example_config = \<lparr>hours = Some 24, dryRun = False, specificSession = None, verbose = False\<rparr>"

definition empty_world :: world where
  "empty_world = \<lparr>ledger = None, store_calls = [], llm_calls = [], append_calls = [], log = []\<rparr>"

text \<open>The three memories of the reply, and the requests the batch path builds from them.\<close>

definition example_memories :: "json list" where
  "example_memories =
     [JObject [(js ''content'', JString (js ''A'')), (js ''type'', JString (js ''Decision'')),
               (js ''tags'', JArray [JString (js ''db'')])],
      JObject [(js ''content'', JString (js ''B'')), (js ''type'', JString (js ''Insight''))],
      JObject [(js ''content'', JString (js ''C'')), (js ''type'', JString (js ''Context'')),
               (js ''tags'', JArray [])]]"

definition example_requests :: "jstring \<Rightarrow> request list" where
  "example_requests p =
     [\<lparr>req_content = Some (JString (js ''A'')), req_type = Some (JString (js ''Decision'')),
       req_importance = None,
       req_tags = [JString (js ''db''), JString (js ''auto-extracted''), JString (js ''compound-review'')],
       req_source = js ''compound-review'', req_session_file = p\<rparr>,
      \<lparr>req_content = Some (JString (js ''B'')), req_type = Some (JString (js ''Insight'')),
       req_importance = None,
       req_tags = [JString (js ''auto-extracted''), JString (js ''compound-review'')],
       req_source = js ''compound-review'', req_session_file = p\<rparr>,
      \<lparr>req_content = Some (JString (js ''C'')), req_type = Some (JString (js ''Context'')),
       req_importance = None,
       req_tags = [JString (js ''auto-extracted''), JString (js ''compound-review'')],
       req_source = js ''compound-review'', req_session_file = p\<rparr>]"

text \<open>The example as a dry run, and with the transcript named by \<open>--session\<close>.\<close>

definition dry_config :: config where
  "dry_config = example_config\<lparr>dryRun := True\<rparr>"






text \<open>A transcript whose file name holds a line feed, alone in the sessions directory.\<close>

definition newline_name :: jstring where
  "newline_name = js ''a'' @ [LF] @ js ''b.jsonl''"

definition newline_path :: jstring where
  "newline_path = js ''/home/u/.pi/agent/sessions/'' @ newline_name"

definition newline_env :: env where
  "newline_env =
     example_env\<lparr>sessions_tree := Some [File newline_name (Some 999999000)],
                  readFile := (\<lambda>p. if p = newline_path then Some example_transcript else None)\<rparr>"

text \<open>A sessions directory with a directory that cannot be read, the reserved directory, a
  transcript younger than \<open>now\<close>, an old one and a file that is no transcript.\<close>

definition example_tree :: "fsnode list" where
  "example_tree =
     [File (js ''a.jsonl'') (Some 999999999),
      Dir (js ''locked'') None None,
      Dir (js ''subagent-artifacts'') None (Some [File (js ''x.jsonl'') (Some 1000000000)]),
      Dir (js ''e'') None
        (Some [File (js ''b.jsonl'') (Some 1000000005),
               File (js ''c.txt'') (Some 1000000000),
               File (js ''old.jsonl'') (Some 0)])]"








section \<open>Properties\<close>

subsection \<open>Truncation of entry text\<close>

lemma trim_empty_iff: "trim s = [] \<longleftrightarrow> (\<forall>c \<in> set s. isWhiteSpace c)"
proof
  assume "trim s = []"
  then have "dropWhile isWhiteSpace (rev (dropWhile isWhiteSpace s)) = []"
    by (simp add: trim_def)
  then have "\<forall>c \<in> set (rev (dropWhile isWhiteSpace s)). isWhiteSpace c"
    by (simp add: dropWhile_eq_Nil_conv)
  then have "dropWhile isWhiteSpace s = []"
    by (metis hd_dropWhile hd_in_set set_rev)
  then show "\<forall>c \<in> set s. isWhiteSpace c"
    by (simp add: dropWhile_eq_Nil_conv)
next
  assume "\<forall>c \<in> set s. isWhiteSpace c"
  then have d: "dropWhile isWhiteSpace s = []"
    by (simp add: dropWhile_eq_Nil_conv)
  show "trim s = []"
    unfolding trim_def d by simp
qed

lemma parse_lines_pushed:
  "parse_lines N ls es tc =
     \<lparr>entries = es @ map (\<lambda>(r, t). \<lparr>role = r, etext = take 2000 t\<rparr>) (pushed N ls),
      turnCount = tc + length (filter (\<lambda>(r, t). r = User) (pushed N ls))\<rparr>"
proof (induction ls arbitrary: es tc)
  case Nil
  show ?case by (simp add: pushed_def)
next
  case (Cons l ls)
  show ?case
  proof (cases "line_message N l")
    case (Inl e)
    then show ?thesis using Cons [of es tc] by (simp add: pushed_def)
  next
    case (Inr v)
    show ?thesis
    proof (cases v)
      case None
      with Inr show ?thesis using Cons [of es tc] by (simp add: pushed_def)
    next
      case (Some x)
      obtain r t where x: "x = (r, t)" by (cases x)
      with Inr Some show ?thesis
        using Cons [of "es @ [\<lparr>role = r, etext = slice0 t 2000\<rparr>]" "if r = User then tc + 1 else tc"]
        by (simp add: pushed_def slice0_def)
    qed
  qed
qed

lemma conversation_lines_messages:
  "conversation_lines es ls tc =
     (ls @ map live_line (live_messages es),
      tc + length (filter (\<lambda>(r, t). r = User) (live_messages es)))"
proof (induction es arbitrary: ls tc)
  case Nil
  show ?case by (simp add: live_messages_def)
next
  case (Cons e es)
  show ?case
  proof (cases "live_message e")
    case None
    then have "conversation_lines (e # es) ls tc = conversation_lines es ls tc"
      by (auto simp: live_message_def split: option.splits if_splits)
    with None show ?thesis using Cons [of ls tc]
      by (simp add: live_messages_def)
  next
    case (Some m)
    obtain r t where m: "m = (r, t)" by (cases m)
    show ?thesis
    proof (cases r)
      case User
      with Some m have "conversation_lines (e # es) ls tc = conversation_lines es (ls @ [user_line t]) (tc + 1)"
        by (auto simp: live_message_def split: option.splits if_splits)
      with Some m User show ?thesis using Cons [of "ls @ [user_line t]" "tc + 1"]
        by (simp add: live_messages_def live_line_def user_line_def)
    next
      case Assistant
      with Some m have "conversation_lines (e # es) ls tc = conversation_lines es (ls @ [assistant_line t]) tc"
        by (auto simp: live_message_def split: option.splits if_splits)
      with Some m Assistant show ?thesis using Cons [of "ls @ [assistant_line t]" tc]
        by (simp add: live_messages_def live_line_def assistant_line_def slice0_def)
    qed
  qed
qed

text \<open>
  C5, as the code has it. Batch path: the transcript is read and every entry pushed holds
  the first 2000 code units of its text, which is the text itself when that has at most
  2000 units. Live path: the text sent on is the rendered lines joined by blank lines; a
  user message is rendered whole, whatever its length, and an assistant message longer
  than 2000 units as its first 2000 units followed by three dots.
\<close>

theorem entry_text_truncation:
  "(readFile E p = Some content \<longrightarrow>
      (\<exists>conv. parseSession E p = Inr conv \<and>
         entries conv = map (\<lambda>(r, t). \<lparr>role = r, etext = slice0 t 2000\<rparr>)
                          (pushed (nops E) (session_lines content))))
   \<and> length (slice0 t 2000) = min (length t) 2000
   \<and> slice0 t 2000 @ drop 2000 t = t
   \<and> (length t \<le> 2000 \<longrightarrow> slice0 t 2000 = t)
   \<and> lc_text (extractConversationText es) = join [LF, LF] (map live_line (live_messages es))
   \<and> live_line (User, t) = js ''USER: '' @ t
   \<and> live_line (Assistant, t) =
       js ''ASSISTANT: '' @ (if 2000 < length t then slice0 t 2000 @ js ''...'' else t)"
  by (simp add: parseSession_def parse_lines_pushed slice0_def extractConversationText_def
      conversation_lines_messages live_line_def)

text \<open>
  C5 as stated fails on the live path: a user message of 5000 code units is sent on whole.
\<close>

theorem live_user_text_not_truncated:
  "lc_text (extractConversationText [big_user_entry]) = js ''USER: '' @ replicate 5000 0x61"
proof -
  have "\<not> isWhiteSpace 0x61" by (simp add: isWhiteSpace_def)
  then have "trim (replicate 5000 0x61) \<noteq> []"
    by (simp add: trim_empty_iff)
  moreover have "js ''user'' \<noteq> []" by (simp add: js_def)
  ultimately show ?thesis
    by (simp add: extractConversationText_def big_user_entry_def user_line_def)
qed

theorem entry_text_truncation_witness:
  "readFile example_env example_path = Some example_transcript
   \<and> (\<exists>conv. parseSession example_env example_path = Inr conv \<and>
         entries conv = map (\<lambda>(r, t). \<lparr>role = r, etext = slice0 t 2000\<rparr>)
                          (pushed (nops example_env) (session_lines example_transcript)))
   \<and> length (js ''ok'') \<le> 2000 \<and> slice0 (js ''ok'') 2000 = js ''ok''"
  using entry_text_truncation [of example_env example_path example_transcript "js ''ok''"]
  by (simp add: example_env_def js_def)

subsection \<open>What each step leaves alone\<close>

lemma say_fields [simp]:
  "ledger (say ev w) = ledger w"
  "store_calls (say ev w) = store_calls w"
  "llm_calls (say ev w) = llm_calls w"
  "append_calls (say ev w) = append_calls w"
  "log (say ev w) = log w @ [ev]"
  by (simp_all add: say_def)

lemma debug_fields [simp]:
  "ledger (debug C w) = ledger w"
  "store_calls (debug C w) = store_calls w"
  "llm_calls (debug C w) = llm_calls w"
  "append_calls (debug C w) = append_calls w"
  by (simp_all add: debug_def)

lemma started_say [simp]:
  "started (say ev w) = started w @ (case ev of LogProcessing q \<Rightarrow> [q] | _ \<Rightarrow> [])"
  by (simp add: started_def say_def map_filter_def split: log_event.splits)

lemma started_debug [simp]: "started (debug C w) = started w"
  by (simp add: debug_def)

lemma started_log: "log w = log w' \<Longrightarrow> started w = started w'"
  by (simp add: started_def)


lemma extractMemories_fields:
  "extractMemories E t w = (r, w') \<Longrightarrow>
     ledger w' = ledger w \<and> store_calls w' = store_calls w \<and> log w' = log w
     \<and> append_calls w' = append_calls w"
  by (auto simp: extractMemories_def Let_def split: exec_outcome.splits)

lemma dry_run_list_fields:
  "dry_run_list N ms w = (r, w') \<Longrightarrow>
     ledger w' = ledger w \<and> store_calls w' = store_calls w \<and> llm_calls w' = llm_calls w
     \<and> started w' = started w \<and> append_calls w' = append_calls w"
proof (induction N ms w arbitrary: r w' rule: dry_run_list.induct)
  case (1 N w)
  then show ?case by simp
next
  case (2 N m ms w)
  show ?case
  proof (cases "get (Some m) (js ''type'')")
    case (Inl e)
    with "2.prems" show ?thesis by simp
  next
    case ty: (Inr ty)
    show ?thesis
    proof (cases "cannot_print ty \<or> cannot_print (field_of m (js ''content''))")
      case True
      with ty "2.prems" show ?thesis by auto
    next
      case head: False
      show ?thesis
      proof (cases "cannot_print (field_of m (js ''importance''))
                  \<or> (truthy N (field_of m (js ''tags'')) \<and> \<not> isArray (field_of m (js ''tags'')))
                  \<or> cannot_print (field_of m (js ''tags''))")
        case True
        with ty head "2.prems" show ?thesis by auto
      next
        case False
        with ty head "2.prems"
        have "dry_run_list N ms (say (LogMemoryDetail m) (say (LogMemoryHead m) w)) = (r, w')"
          by simp
        from "2.IH" [OF ty head False this] show ?thesis by simp
      qed
    qed
  qed
qed

text \<open>A store call adds at most one request, for the session at hand.\<close>

lemma storeMemory_fields:
  "storeMemory E m p w = (r, w') \<Longrightarrow>
     ledger w' = ledger w \<and> llm_calls w' = llm_calls w \<and> log w' = log w \<and>
     append_calls w' = append_calls w \<and>
     (\<exists>new. store_calls w' = store_calls w @ new \<and> (\<forall>rq \<in> set new. req_session_file rq = p))"
  by (auto simp: storeMemory_def build_request_def split: sum.splits)

lemma store_all_fields:
  "store_all E ms p st fl w = (st', fl', w') \<Longrightarrow>
     ledger w' = ledger w \<and> llm_calls w' = llm_calls w \<and> started w' = started w \<and>
     append_calls w' = append_calls w \<and>
     (\<exists>new. store_calls w' = store_calls w @ new \<and> (\<forall>rq \<in> set new. req_session_file rq = p))"
proof (induction E ms p st fl w arbitrary: st' fl' w' rule: store_all.induct)
  case (1 E p st fl w)
  then show ?case by simp
next
  case (2 E m rest p st fl w)
  obtain r w1 where s: "storeMemory E m p w = (r, w1)" by (cases "storeMemory E m p w")
  from storeMemory_fields [OF s] obtain new1 where
    f1: "ledger w1 = ledger w" "llm_calls w1 = llm_calls w" "log w1 = log w"
    "append_calls w1 = append_calls w"
    "store_calls w1 = store_calls w @ new1" "\<forall>rq \<in> set new1. req_session_file rq = p"
    by blast
  show ?case
  proof (cases r)
    case (Inl e)
    with s "2.prems" have "store_all E rest p st (fl + 1) (say (LogStoreFailed e) w1) = (st', fl', w')"
      by simp
    from "2.IH"(1) [OF s [symmetric] Inl this] obtain new2 where
      "ledger w' = ledger w1" "llm_calls w' = llm_calls w1"
      "started w' = started (say (LogStoreFailed e) w1)" "append_calls w' = append_calls w1"
      "store_calls w' = store_calls w1 @ new2" "\<forall>rq \<in> set new2. req_session_file rq = p"
      by auto
    with f1 started_log [OF f1(3)] show ?thesis
      by (intro conjI exI [of _ "new1 @ new2"]) auto
  next
    case (Inr u)
    with s "2.prems" have "store_all E rest p (st + 1) fl w1 = (st', fl', w')"
      by simp
    from "2.IH"(2) [OF s [symmetric] Inr this] obtain new2 where
      "ledger w' = ledger w1" "llm_calls w' = llm_calls w1" "started w' = started w1"
      "append_calls w' = append_calls w1"
      "store_calls w' = store_calls w1 @ new2" "\<forall>rq \<in> set new2. req_session_file rq = p"
      by auto
    with f1 started_log [OF f1(3)] show ?thesis
      by (intro conjI exI [of _ "new1 @ new2"]) auto
  qed
qed

text \<open>
  One session: the ledger is left alone and no append is tried, the path is logged as
  started, and requests are sent only outside a dry run, only for this session, and only when the session returns
  a result that is not skipped.
\<close>

lemma processSession_effects:
  assumes "processSession C E p w = (r, w')"
  shows "ledger w' = ledger w \<and> started w' = started w @ [p] \<and>
     append_calls w' = append_calls w \<and>
     (\<exists>new. store_calls w' = store_calls w @ new \<and> (\<forall>rq \<in> set new. req_session_file rq = p)
        \<and> (dryRun C \<longrightarrow> new = [])
        \<and> (new \<noteq> [] \<longrightarrow> (\<exists>res. r = Inr res \<and> \<not> skipped res)))"
proof (cases "parseSession E p")
  case (Inl e)
  with assms show ?thesis by (auto simp: processSession_def Let_def)
next
  case (Inr conv)
  show ?thesis
  proof (cases "turnCount conv < 3")
    case True
    with Inr assms show ?thesis by (auto simp: processSession_def Let_def)
  next
    case False
    define w0 where "w0 = debug C (say (LogProcessing p) w)"
    obtain x w1 where ex: "extractMemories E (formatConversation (entries conv)) w0 = (x, w1)"
      by (cases "extractMemories E (formatConversation (entries conv)) w0")
    from extractMemories_fields [OF ex]
    have f1: "ledger w1 = ledger w" "store_calls w1 = store_calls w" "started w1 = started w @ [p]"
      "append_calls w1 = append_calls w"
      using started_log [of w1 w0] by (simp_all add: w0_def)
    show ?thesis
    proof (cases x)
      case (Inl e)
      with Inr False ex assms f1 show ?thesis
        by (auto simp: processSession_def Let_def w0_def)
    next
      case mems: (Inr mems)
      show ?thesis
      proof (cases "length mems = 0")
        case True
        with mems Inr False ex assms f1 show ?thesis
          by (auto simp: processSession_def Let_def w0_def)
      next
        case ne: False
        show ?thesis
        proof (cases "dryRun C")
          case True
          obtain y w2 where d: "dry_run_list (nops E) mems (say LogDryRunHeader (debug C w1)) = (y, w2)"
            by (cases "dry_run_list (nops E) mems (say LogDryRunHeader (debug C w1))")
          from dry_run_list_fields [OF d] f1
          have f2: "ledger w2 = ledger w" "store_calls w2 = store_calls w" "started w2 = started w @ [p]"
            "append_calls w2 = append_calls w"
            by simp_all
          from True ne mems Inr False ex assms d have "w' = w2"
            by (auto simp: processSession_def Let_def w0_def split: sum.splits)
          with f2 True show ?thesis by simp
        next
          case nd: False
          obtain st fl w2 where s: "store_all E mems p 0 0 (debug C w1) = (st, fl, w2)"
            by (cases "store_all E mems p 0 0 (debug C w1)")
          from store_all_fields [OF s] f1 obtain new where
            f2: "ledger w2 = ledger w" "started w2 = started w @ [p]"
            "append_calls w2 = append_calls w"
            "store_calls w2 = store_calls w @ new" "\<forall>rq \<in> set new. req_session_file rq = p"
            by auto
          from nd ne mems Inr False ex assms s
          have "w' = w2" and "\<exists>res. r = Inr res \<and> \<not> skipped res"
            by (auto simp: processSession_def Let_def w0_def)
          with f2 nd show ?thesis by auto
        qed
      qed
    qed
  qed
qed

text \<open>
  The mark: nothing but the ledger is touched; outside a dry run one append is tried, and
  the file has the line added when the append succeeds and is as before when it throws.
\<close>

lemma markSessionProcessed_effects:
  assumes "markSessionProcessed C E p w = (r, w')"
  shows "store_calls w' = store_calls w \<and> llm_calls w' = llm_calls w \<and> log w' = log w
     \<and> started w' = started w
     \<and> append_calls w' = append_calls w @ (if dryRun C then [] else [p @ [LF]])
     \<and> ledger w' =
         (if \<not> dryRun C \<and> append_ok E (length (append_calls w)) (p @ [LF])
          then appendFile (ledger w) (p @ [LF]) else ledger w)
     \<and> (r = Inr () \<longleftrightarrow> dryRun C \<or> append_ok E (length (append_calls w)) (p @ [LF]))
     \<and> (r = Inl WriteError \<longleftrightarrow> \<not> dryRun C \<and> \<not> append_ok E (length (append_calls w)) (p @ [LF]))"
  using assms by (auto simp: markSessionProcessed_def started_def split: if_splits)


text \<open>
  One turn of the loop: the session is started, requests are sent for it only, and the
  ledger has its line added exactly when the run is no dry run, \<open>processSession\<close> returns
  a result that is not skipped, and the append succeeds.
\<close>

lemma main_loop_turn:
  "\<exists>tm2 ts2 w2. main_loop C E (s # rest) tm ts w = main_loop C E rest tm2 ts2 w2
     \<and> started w2 = started w @ [path s]
     \<and> (\<exists>new. store_calls w2 = store_calls w @ new
          \<and> (\<forall>rq \<in> set new. req_session_file rq = path s)
          \<and> (dryRun C \<longrightarrow> new = []))
     \<and> ledger w2 =
         (if \<not> dryRun C
             \<and> (\<exists>res. fst (processSession C E (path s) w) = Inr res \<and> \<not> skipped res)
             \<and> append_ok E (length (append_calls w)) (path s @ [LF])
          then appendFile (ledger w) (path s @ [LF]) else ledger w)"
proof -
  obtain r w1 where p: "processSession C E (path s) w = (r, w1)"
    by (cases "processSession C E (path s) w")
  from processSession_effects [OF p] obtain new1 where
    f1: "ledger w1 = ledger w" "started w1 = started w @ [path s]"
    "append_calls w1 = append_calls w"
    "store_calls w1 = store_calls w @ new1" "\<forall>rq \<in> set new1. req_session_file rq = path s"
    "dryRun C \<longrightarrow> new1 = []"
    by auto
  show ?thesis
  proof (cases r)
    case (Inl e)
    with p f1 show ?thesis
      by (intro exI [of _ tm] exI [of _ ts] exI [of _ "say (LogError s e) w1"]) simp
  next
    case (Inr res)
    show ?thesis
    proof (cases "skipped res")
      case True
      with Inr p f1 show ?thesis
        by (intro exI [of _ tm] exI [of _ ts] exI [of _ w1]) simp
    next
      case False
      obtain r2 w2 where m: "markSessionProcessed C E (path s) w1 = (r2, w2)"
        by (cases "markSessionProcessed C E (path s) w1")
      note f2 = markSessionProcessed_effects [OF m]
      show ?thesis
      proof (cases r2)
        case e: (Inl e)
        with False Inr p m f1 f2 show ?thesis
          by (intro exI [of _ "tm + or_zero (memories res)"]
              exI [of _ "ts + or_zero (stored res)"] exI [of _ "say (LogError s e) w2"]) simp
      next
        case u: (Inr u)
        with False Inr p m f1 f2 show ?thesis
          by (intro exI [of _ "tm + or_zero (memories res)"]
              exI [of _ "ts + or_zero (stored res)"] exI [of _ w2]) simp
      qed
    qed
  qed
qed

text \<open>The loop starts exactly the sessions it is given, in order, and sends requests for them only.\<close>

lemma main_loop_effects:
  "main_loop C E ss tm ts w = (tm', ts', w') \<Longrightarrow>
     started w' = started w @ map path ss \<and>
     (dryRun C \<longrightarrow> ledger w' = ledger w) \<and>
     (\<exists>new. store_calls w' = store_calls w @ new
        \<and> (\<forall>rq \<in> set new. req_session_file rq \<in> path ` set ss)
        \<and> (dryRun C \<longrightarrow> new = []))"
proof (induction ss arbitrary: tm ts w)
  case Nil
  then show ?case by simp
next
  case (Cons s ss)
  from main_loop_turn [of C E s ss tm ts w] obtain tm2 ts2 w2 new1 where
    step: "main_loop C E (s # ss) tm ts w = main_loop C E ss tm2 ts2 w2"
    and f1: "started w2 = started w @ [path s]" "store_calls w2 = store_calls w @ new1"
    "\<forall>rq \<in> set new1. req_session_file rq = path s" "dryRun C \<longrightarrow> new1 = []"
    "dryRun C \<longrightarrow> ledger w2 = ledger w"
    by auto
  from Cons.prems step have "main_loop C E ss tm2 ts2 w2 = (tm', ts', w')" by simp
  from Cons.IH [OF this] obtain new2 where
    f3: "started w' = started w2 @ map path ss" "dryRun C \<longrightarrow> ledger w' = ledger w2"
    "store_calls w' = store_calls w2 @ new2" "\<forall>rq \<in> set new2. req_session_file rq \<in> path ` set ss"
    "dryRun C \<longrightarrow> new2 = []"
    by auto
  from f1 f3 show ?case
    by (intro conjI exI [of _ "new1 @ new2"]) auto
qed

lemma find_sessions_fields:
  "find_sessions C E w = (ss, w') \<Longrightarrow>
     ledger w' = ledger w \<and> store_calls w' = store_calls w \<and> started w' = started w"
  by (auto simp: find_sessions_def Let_def split: option.splits if_splits)

lemma find_sessions_fst: "fst (find_sessions C E w) = fst (find_sessions C E w')"
  by (simp add: find_sessions_def Let_def split: option.splits)

lemma toProcess_ledger: "ledger w = ledger w' \<Longrightarrow> toProcess ss w = toProcess ss w'"
  by (simp add: toProcess_def getProcessedSessions_def)

text \<open>
  The run: it starts exactly the sessions found that are not in the ledger, and sends
  requests for them only.
\<close>

lemma main_effects:
  assumes "main C E w = (out, w')"
  shows "(dryRun C \<or> \<not> (token_set E \<and> pi_found E \<and> health_ok E)
        \<or> toProcess (fst (find_sessions C E w)) w = [] \<longrightarrow> ledger w' = ledger w) \<and>
     started w' = started w @
        (if token_set E \<and> pi_found E \<and> health_ok E
         then map path (toProcess (fst (find_sessions C E w)) w) else []) \<and>
     (\<exists>new. store_calls w' = store_calls w @ new \<and> (dryRun C \<longrightarrow> new = [])
        \<and> (\<forall>rq \<in> set new. req_session_file rq \<in> path ` set (toProcess (fst (find_sessions C E w)) w)))"
proof (cases "token_set E \<and> pi_found E \<and> health_ok E")
  case False
  with assms have "w' = say LogBanner w"
    by (auto simp: main_def Let_def split: if_splits)
  with False show ?thesis by auto
next
  case True
  define wa where "wa = say LogHealth (say LogBanner w)"
  obtain ss w1 where fs: "find_sessions C E wa = (ss, w1)"
    by (cases "find_sessions C E wa")
  from find_sessions_fields [OF fs]
  have f1: "ledger w1 = ledger w" "store_calls w1 = store_calls w" "started w1 = started w"
    by (simp_all add: wa_def)
  have ss: "ss = fst (find_sessions C E w)"
    using fs find_sessions_fst [of C E wa w] by simp
  define todo where "todo = toProcess ss w1"
  have todo: "todo = toProcess (fst (find_sessions C E w)) w"
    using toProcess_ledger [OF f1(1)] ss by (simp add: todo_def)
  define w2 where "w2 = say (LogNotYetProcessed (length todo)) w1"
  have f2: "ledger w2 = ledger w" "store_calls w2 = store_calls w" "started w2 = started w"
    using f1 by (simp_all add: w2_def)
  show ?thesis
  proof (cases "length todo = 0")
    case z: True
    with True fs assms have "w' = say LogNothingToProcess w2"
      by (simp add: main_def Let_def wa_def todo_def w2_def)
    with f2 z True todo show ?thesis by auto
  next
    case nz: False
    obtain tm ts w3 where ml: "main_loop C E todo 0 0 w2 = (tm, ts, w3)"
      by (cases "main_loop C E todo 0 0 w2")
    with nz True fs assms
    have "w' = say (LogSummary (length todo) tm (if \<not> dryRun C then Some ts else None)) w3"
      by (simp add: main_def Let_def wa_def todo_def w2_def)
    with main_loop_effects [OF ml] f2 True todo nz show ?thesis by auto
  qed
qed

text \<open>
  C8. In a dry run the ledger file and the requests sent to the store are, after the run,
  what they were before it, whatever the sessions hold and whatever the extraction returns.
\<close>

theorem dry_run_changes_nothing:
  "dryRun C \<Longrightarrow>
     ledger (snd (main C E w)) = ledger w \<and> store_calls (snd (main C E w)) = store_calls w"
  using main_effects [of C E w "fst (main C E w)" "snd (main C E w)"] by auto


subsection \<open>The ledger as a set of lines\<close>

lemma getProcessedSessions_lines: "getProcessedSessions w = file_lines (ledger w)"
  by (simp add: getProcessedSessions_def file_lines_def split: option.splits)

lemma split_on_not_Nil [simp]: "split_on d s \<noteq> []"
  by (induction s) (auto split: list.splits)

lemma split_on_append: "split_on d (a @ d # b) = split_on d a @ split_on d b"
proof (induction a)
  case Nil
  show ?case by simp
next
  case (Cons c a)
  obtain x xs where x: "split_on d a = x # xs"
    by (cases "split_on d a") simp_all
  with Cons show ?case by simp
qed

lemma split_on_plain: "d \<notin> set s \<Longrightarrow> split_on d s = [s]"
  by (induction s) auto










lemma append_lines_simps [simp]:
  "append_lines f [] = f"
  "append_lines f (p # ps) = append_lines (appendFile f (p @ [LF])) ps"
  by (simp_all add: append_lines_def)










subsection \<open>Errors and marking in the loop\<close>






lemma extractMemories_timeout:
  "pi_exec E (length (llm_calls w)) (slice0 t 15000) = ExecFails True \<Longrightarrow>
     fst (extractMemories E t w) = Inl ExtractionTimeout"
  by (simp add: extractMemories_def Let_def)






subsection \<open>Discovery\<close>

lemma reserved_name: "\<not> endsWith (js ''subagent-artifacts'') (js ''.jsonl'')"
  by (simp add: endsWith_def js_def)

lemma recent_append: "recent c (xs @ ys) = recent c xs @ recent c ys"
  by (simp add: recent_def map_filter_def)

lemma all_stats_append: "all_stats (xs @ ys) \<longleftrightarrow> all_stats xs \<and> all_stats ys"
  by (simp add: all_stats_def)

text \<open>Whatever the scan returns is a recent transcript.\<close>

lemma scanEntries_sound: "set (scanEntries c dir es) \<subseteq> set (recent c (transcripts dir es))"
proof (induction c dir es rule: scanEntries.induct)
  case (1 cutoff dir)
  show ?case by simp
next
  case (2 cutoff dir nm st sub rest)
  show ?case
  proof (cases "nm \<noteq> js ''subagent-artifacts''")
    case True
    with 2 show ?thesis
      by (cases sub) (auto simp: recent_append)
  next
    case False
    with 2 reserved_name show ?thesis by (auto simp: recent_append)
  qed
next
  case (3 cutoff dir nm st rest)
  then show ?case
    by (cases st) (auto simp: recent_append recent_def map_filter_def)
qed

text \<open>When every \<open>statSync\<close> succeeds, the scan returns exactly the recent transcripts, in order.\<close>

lemma scanEntries_complete:
  "all_stats (transcripts dir es) \<Longrightarrow> scanEntries c dir es = recent c (transcripts dir es)"
proof (induction c dir es rule: scanEntries.induct)
  case (1 cutoff dir)
  show ?case by (simp add: recent_def map_filter_def)
next
  case (2 cutoff dir nm st sub rest)
  show ?case
  proof (cases "nm \<noteq> js ''subagent-artifacts''")
    case True
    with 2 show ?thesis
      by (cases sub) (auto simp: recent_append all_stats_append recent_def map_filter_def)
  next
    case False
    with 2 reserved_name show ?thesis by (auto simp: recent_append all_stats_append)
  qed
next
  case (3 cutoff dir nm st rest)
  then show ?case
    by (cases st) (auto simp: recent_append all_stats_append recent_def map_filter_def all_stats_def)
qed

lemma sorted_desc: "sorted_wrt (\<lambda>a b. mtime b \<le> mtime a) (sort_key (\<lambda>s. - mtime s) xs)"
proof -
  have "sorted (map (\<lambda>s. - mtime s) (sort_key (\<lambda>s. - mtime s) xs))"
    by (rule sorted_sort_key)
  then show ?thesis by (simp add: sorted_map)
qed

text \<open>
  C6, as the code has it. The result is ordered most recently modified first; every
  session in it is a transcript modified at or after \<open>now - N hours\<close>, with no bound
  from above; when every \<open>statSync\<close> succeeds the result is exactly those transcripts,
  stably sorted; and a directory that cannot be read contributes nothing and does not end
  the scan of the directory that holds it.
\<close>

theorem discovery_contract:
  "sorted_wrt (\<lambda>a b. mtime b \<le> mtime a) (findRecentSessions t baseDir tree hoursAgo)
   \<and> set (findRecentSessions t baseDir (Some es) hoursAgo)
        \<subseteq> set (recent (cutoff_of t hoursAgo) (transcripts baseDir es))
   \<and> (all_stats (transcripts baseDir es) \<longrightarrow>
        findRecentSessions t baseDir (Some es) hoursAgo
          = sort_key (\<lambda>s. - mtime s) (recent (cutoff_of t hoursAgo) (transcripts baseDir es)))
   \<and> at_least m (cutoff_of t (Some n)) = (t - real_of_int (n * 60 * 60 * 1000) \<le> m)
   \<and> findRecentSessions t baseDir None hoursAgo = []
   \<and> scanEntries c dir (Dir nm st None # rest) = scanEntries c dir rest"
proof -
  have "scanEntries c dir (Dir nm st None # rest) = scanEntries c dir rest"
    using reserved_name by auto
  moreover have "at_least m (cutoff_of t (Some n)) = (t - real_of_int (n * 60 * 60 * 1000) \<le> m)"
    by (simp add: at_least_def cutoff_of_def)
  ultimately show ?thesis
    using scanEntries_sound [of "cutoff_of t hoursAgo" baseDir es]
    by (simp add: findRecentSessions_def scanDir_def sorted_desc scanEntries_complete)
qed

text \<open>C6 as stated fails: a transcript modified after \<open>now\<close> is returned.\<close>

theorem future_file_is_found:
  "findRecentSessions 1000 (js ''/s'') (Some [File (js ''a.jsonl'') (Some 2000)]) (Some 1)
     = [\<lparr>path = js ''/s/a.jsonl'', name = js ''a.jsonl'', mtime = 2000\<rparr>]"
  by (simp add: findRecentSessions_def scanDir_def endsWith_def js_def path_join_def
      at_least_def cutoff_of_def)

subsection \<open>Parsing the answer of the model\<close>

lemma candidate_text_body: "candidate_text (gemini_body t) = Inr (Some (JString t))"
  by (simp add: candidate_text_def gemini_body_def opt_get_def js_def)

lemma JSON_parse_nothing: "JSON_parse (js ''[nothing]'') = None"
  by (simp add: JSON_parse_def js_def startsWith_def isDigit_def)

lemma match_bad_reply: "match_array (strip_fence (trim bad_reply)) = Some (js ''[nothing]'')"
  by (simp add: bad_reply_def match_array_def strip_fence_def trim_def isWhiteSpace_def
      startsWith_def js_def)

lemma JSON_parse_bad_reply: "JSON_parse (strip_fence (trim bad_reply)) = None"
  by (simp add: bad_reply_def strip_fence_def trim_def isWhiteSpace_def
      startsWith_def js_def JSON_parse_def isDigit_def)

text \<open>
  C3 at a failing input. The model answers with a sentence that holds a bracketed word.
  The batch path finds the bracketed text, \<open>JSON.parse\<close> throws, the \<open>catch\<close> throws the
  error again and \<open>extractMemories\<close> fails; the live path returns the empty array for
  the same answer.
\<close>

theorem batch_parse_failure_is_thrown:
  "parse_response bad_reply = Inl SyntaxError
   \<and> fst (extractMemories (E\<lparr>pi_exec := \<lambda>n t. Stdout bad_reply\<rparr>) conversationText w) = Inl SyntaxError
   \<and> callGeminiForExtraction N True (\<lambda>t. GResponse True (Some (gemini_body bad_reply))) conversationText = Inr []"
proof -
  have 1: "parse_response bad_reply = Inl SyntaxError"
    by (simp add: parse_response_def match_bad_reply JSON_parse_nothing)
  have "bad_reply \<noteq> []" by (simp add: bad_reply_def js_def)
  then have 2: "gemini_try N (GResponse True (Some (gemini_body bad_reply))) = Inl SyntaxError"
    by (simp add: gemini_try_def candidate_text_body parse_model_text_def JSON_parse_bad_reply)
  from 1 2 show ?thesis
    by (simp add: extractMemories_def callGeminiForExtraction_def)
qed

text \<open>The part of C3 that holds: the live path never throws, and \<open>not json\<close> gives the empty
  array on both paths.\<close>

lemma live_extraction_total: "\<exists>ms. callGeminiForExtraction N k g t = Inr ms"
  by (simp add: callGeminiForExtraction_def split: sum.splits)

lemma not_json_is_empty:
  "parse_response (js ''not json'') = Inr []"
  "callGeminiForExtraction N True (\<lambda>t. GResponse True (Some (gemini_body (js ''not json'')))) c = Inr []"
proof -
  show "parse_response (js ''not json'') = Inr []"
    by (simp add: parse_response_def match_array_def strip_fence_def trim_def isWhiteSpace_def
        startsWith_def js_def)
  have "JSON_parse (strip_fence (trim (js ''not json''))) = None"
    by (simp add: strip_fence_def trim_def isWhiteSpace_def startsWith_def js_def JSON_parse_def
        isDigit_def)
  moreover have "js ''not json'' \<noteq> []" by (simp add: js_def)
  ultimately have "gemini_try N (GResponse True (Some (gemini_body (js ''not json'')))) = Inl SyntaxError"
    by (simp add: gemini_try_def candidate_text_body parse_model_text_def)
  then show "callGeminiForExtraction N True (\<lambda>t. GResponse True (Some (gemini_body (js ''not json'')))) c = Inr []"
    by (simp add: callGeminiForExtraction_def)
qed

text \<open>
  C4, as the code has it. There is no check of the elements: when the text handed to
  \<open>JSON.parse\<close> is an array, both paths return its elements as they are, all of them and
  in order.
\<close>

theorem elements_returned_unchecked:
  "(match_array (strip_fence (trim out)) = Some m \<and> JSON_parse m = Some (JArray xs)
      \<longrightarrow> parse_response out = Inr xs
        \<and> fst (extractMemories (E\<lparr>pi_exec := \<lambda>n t. Stdout out\<rparr>) conversationText w) = Inr xs)
   \<and> (JSON_parse (strip_fence (trim out)) = Some (JArray xs) \<and> out \<noteq> []
      \<longrightarrow> parse_model_text out = Inr xs
        \<and> callGeminiForExtraction N True (\<lambda>t. GResponse True (Some (gemini_body out))) conversationText = Inr xs)"
  by (simp add: parse_response_def extractMemories_def parse_model_text_def
      callGeminiForExtraction_def gemini_try_def candidate_text_body)

lemma unchecked_parse:
  "JSON_parse unchecked_reply =
     Some (JArray [JObject [(js ''type'', JString (js ''Insight''))],
                   JObject [(js ''content'', JString []), (js ''importance'', JString (js ''high''))],
                   JNumber (js ''7'')])"
  by (simp add: unchecked_reply_def JSON_parse_def js_def startsWith_def isDigit_def
      lex_number_def lex_digits_def lex_frac_def lex_exp_def)

lemma unchecked_plain:
  "strip_fence (trim unchecked_reply) = unchecked_reply"
  "match_array unchecked_reply = Some unchecked_reply"
  by (simp_all add: unchecked_reply_def strip_fence_def trim_def isWhiteSpace_def
      startsWith_def js_def match_array_def)

text \<open>
  C4 as stated fails: an element without \<open>content\<close>, one with an empty \<open>content\<close> and
  an \<open>importance\<close> that is no number, and a bare number are all returned, on both paths.
\<close>

theorem malformed_elements_kept:
  "parse_response unchecked_reply =
     Inr [JObject [(js ''type'', JString (js ''Insight''))],
          JObject [(js ''content'', JString []), (js ''importance'', JString (js ''high''))],
          JNumber (js ''7'')]
   \<and> parse_model_text unchecked_reply =
     Inr [JObject [(js ''type'', JString (js ''Insight''))],
          JObject [(js ''content'', JString []), (js ''importance'', JString (js ''high''))],
          JNumber (js ''7'')]"
  by (simp add: parse_response_def parse_model_text_def unchecked_plain unchecked_parse)

subsection \<open>Storing\<close>


lemma requests_of_simps [simp]:
  "requests_of N [] p = []"
  "requests_of N (m # ms) p =
     (case build_request N m p of Inl e \<Rightarrow> [] | Inr rq \<Rightarrow> [rq]) @ requests_of N ms p"
  by (simp_all add: requests_of_def map_filter_simps split: sum.splits)

lemma live_requests_of_simps [simp]:
  "live_requests_of [] sid sf cwd = []"
  "live_requests_of (m # ms) sid sf cwd =
     (case build_live_request m sid sf cwd of Inl e \<Rightarrow> [] | Inr rq \<Rightarrow> [rq])
     @ live_requests_of ms sid sf cwd"
  by (simp_all add: live_requests_of_def map_filter_simps split: sum.splits)




text \<open>
  The loop as a whole: the two counters grow by the number of memories, and the requests
  sent are those of the memories a request can be built for, one each and in order.
\<close>

lemma store_all_counts:
  "store_all E ms p st fl w = (st', fl', w') \<Longrightarrow>
     st' + fl' = st + fl + length ms
     \<and> store_calls w' = store_calls w @ requests_of (nops E) ms p"
proof (induction E ms p st fl w arbitrary: st' fl' w' rule: store_all.induct)
  case (1 E p st fl w)
  then show ?case by simp
next
  case (2 E m rest p st fl w)
  obtain r w1 where s: "storeMemory E m p w = (r, w1)" by (cases "storeMemory E m p w")
  then have c: "store_calls w1 = store_calls w @
      (case build_request (nops E) m p of Inl e \<Rightarrow> [] | Inr rq \<Rightarrow> [rq])"
    by (auto simp: storeMemory_def split: sum.splits)
  show ?case
  proof (cases r)
    case (Inl e)
    with s "2.prems" have "store_all E rest p st (fl + 1) (say (LogStoreFailed e) w1) = (st', fl', w')"
      by simp
    from "2.IH"(1) [OF s [symmetric] Inl this] c show ?thesis by simp
  next
    case (Inr u)
    with s "2.prems" have "store_all E rest p (st + 1) fl w1 = (st', fl', w')"
      by simp
    from "2.IH"(2) [OF s [symmetric] Inr this] c show ?thesis by simp
  qed
qed












subsection \<open>The example run\<close>

lemma ex_user: "line_message example_numops user_record = Inr (Some (User, js ''use postgres''))"
  by (simp add: line_message_def user_record_def JSON_parse_def js_def startsWith_def isDigit_def
      message_text_def trim_def isWhiteSpace_def)

lemma ex_assistant: "line_message example_numops assistant_record = Inr (Some (Assistant, js ''ok''))"
  by (simp add: line_message_def assistant_record_def JSON_parse_def js_def startsWith_def isDigit_def
      message_text_def trim_def isWhiteSpace_def array_join_def text_of_def LF_def)

lemma ex_records:
  "LF \<notin> set user_record" "LF \<notin> set assistant_record"
  "user_record \<noteq> []" "assistant_record \<noteq> []"
  by (simp_all add: user_record_def assistant_record_def js_def LF_def)

lemma ex_lines:
  "session_lines example_transcript =
     [user_record, assistant_record, user_record, assistant_record, user_record]"
proof -
  have "split_on LF example_transcript =
      [user_record, assistant_record, user_record, assistant_record, user_record, []]"
    unfolding example_transcript_def
    using ex_records(1,2)
    by (simp add: split_on_append split_on_plain)
  then show ?thesis by (simp add: session_lines_def ex_records)
qed

lemma ex_parse_any:
  assumes "nops E = example_numops" and "readFile E p = Some example_transcript"
  shows "parseSession E p =
     Inr \<lparr>entries = [\<lparr>role = User, etext = js ''use postgres''\<rparr>,
                      \<lparr>role = Assistant, etext = js ''ok''\<rparr>,
                      \<lparr>role = User, etext = js ''use postgres''\<rparr>,
                      \<lparr>role = Assistant, etext = js ''ok''\<rparr>,
                      \<lparr>role = User, etext = js ''use postgres''\<rparr>],
          turnCount = 3\<rparr>"
proof -
  have "slice0 (js ''use postgres'') 2000 = js ''use postgres''"
    "slice0 (js ''ok'') 2000 = js ''ok''"
    by (simp_all add: slice0_def js_def)
  then show ?thesis
    using assms by (simp add: parseSession_def ex_lines ex_user ex_assistant)
qed



lemma ex_reply: "parse_response example_reply = Inr example_memories"
proof -
  have "strip_fence (trim example_reply) = example_reply"
    by (simp add: example_reply_def strip_fence_def trim_def isWhiteSpace_def startsWith_def js_def)
  moreover have "match_array example_reply = Some example_reply"
    by (simp add: example_reply_def match_array_def js_def)
  moreover have "JSON_parse example_reply = Some (JArray example_memories)"
    by (simp add: example_reply_def example_memories_def JSON_parse_def js_def startsWith_def
        isDigit_def)
  ultimately show ?thesis by (simp add: parse_response_def)
qed


lemma ex_extract_any:
  "pi_exec E = (\<lambda>n t. Stdout example_reply) \<Longrightarrow>
   extractMemories E t w =
     (Inr example_memories, w\<lparr>llm_calls := llm_calls w @ [slice0 t 15000]\<rparr>)"
  by (simp add: extractMemories_def ex_reply)


lemma ex_requests_of: "requests_of example_numops example_memories p = example_requests p"
  by (simp add: example_memories_def example_requests_def build_request_def spread_tags_def js_def)







theorem dry_run_changes_nothing_witness:
  "dryRun dry_config
   \<and> ledger (snd (main dry_config example_env empty_world)) = ledger empty_world
   \<and> store_calls (snd (main dry_config example_env empty_world)) = store_calls empty_world"
proof -
  have d: "dryRun dry_config" by (simp add: dry_config_def)
  from d dry_run_changes_nothing [OF d, of example_env empty_world] show ?thesis by simp
qed





text \<open>A run over the one transcript of the example, for any store and any ledger file.\<close>

lemma ex_process_any:
  assumes "nops E = example_numops" and "readFile E p = Some example_transcript"
    and "pi_exec E = (\<lambda>n t. Stdout example_reply)" and "\<not> dryRun C"
  shows "\<exists>res w'. processSession C E p w = (Inr res, w') \<and> \<not> skipped res
          \<and> store_calls w' = store_calls w @ example_requests p \<and> ledger w' = ledger w
          \<and> append_calls w' = append_calls w"
proof -
  let ?w1 = "debug C (say (LogProcessing p) w)"
  let ?t = "formatConversation (entries (case parseSession E p of Inr c \<Rightarrow> c))"
  let ?w2 = "debug C (?w1\<lparr>llm_calls := llm_calls ?w1 @ [slice0 ?t 15000]\<rparr>)"
  obtain a b w' where s: "store_all E example_memories p 0 0 ?w2 = (a, b, w')"
    by (cases "store_all E example_memories p 0 0 ?w2")
  from store_all_counts [OF s] store_all_fields [OF s] ex_requests_of [of p] assms(1)
  have f: "store_calls w' = store_calls w @ example_requests p" "ledger w' = ledger w"
    "append_calls w' = append_calls w"
    by (simp_all add: debug_def say_def)
  have m: "example_memories \<noteq> []" by (simp add: example_memories_def)
  have "\<exists>res. processSession C E p w = (Inr res, w') \<and> \<not> skipped res"
    using s m assms(4)
    by (simp add: processSession_def ex_parse_any [OF assms(1,2)] ex_extract_any [OF assms(3)] Let_def)
  with f show ?thesis by blast
qed

lemma ex_main_any:
  assumes "nops E = example_numops" and "readFile E p = Some example_transcript"
    and "pi_exec E = (\<lambda>n t. Stdout example_reply)" and "\<not> dryRun C"
    and "token_set E" and "pi_found E" and "health_ok E"
    and "fst (find_sessions C E w) = [s]" and "path s = p" and "p \<notin> getProcessedSessions w"
  shows "store_calls (snd (main C E w)) = store_calls w @ example_requests p
     \<and> ledger (snd (main C E w)) =
         (if append_ok E (length (append_calls w)) (p @ [LF])
          then appendFile (ledger w) (p @ [LF]) else ledger w)"
proof -
  let ?w0 = "say LogHealth (say LogBanner w)"
  obtain ss w1 where fs: "find_sessions C E ?w0 = (ss, w1)" by (cases "find_sessions C E ?w0")
  have f1: "ledger w1 = ledger w" "store_calls w1 = store_calls w"
    "append_calls w1 = append_calls w"
    using fs by (auto simp: find_sessions_def Let_def split: option.splits if_splits)
  have ss: "ss = [s]" using fs find_sessions_fst [of C E ?w0 w] assms(8) by simp
  have tp: "toProcess [s] w1 = [s]"
    using assms(9,10) toProcess_ledger [OF f1(1), of "[s]"] by (simp add: toProcess_def)
  let ?w2 = "say (LogNotYetProcessed 1) w1"
  from ex_process_any [OF assms(1-4), of ?w2] obtain res w' where
    p: "processSession C E p ?w2 = (Inr res, w')" and ns: "\<not> skipped res"
    and f2: "store_calls w' = store_calls w @ example_requests p" "ledger w' = ledger w"
    "append_calls w' = append_calls w"
    using f1 by auto
  obtain r2 w3 where m: "markSessionProcessed C E p w' = (r2, w3)"
    by (cases "markSessionProcessed C E p w'")
  note f3 = markSessionProcessed_effects [OF m]
  have "\<exists>w4. main_loop C E [s] 0 0 ?w2 = (or_zero (memories res), or_zero (stored res), w4)
      \<and> store_calls w4 = store_calls w3 \<and> ledger w4 = ledger w3"
    using p ns m assms(9) by (cases r2) simp_all
  then obtain w4 where
    ml: "main_loop C E [s] 0 0 ?w2 = (or_zero (memories res), or_zero (stored res), w4)"
    and f4: "store_calls w4 = store_calls w3" "ledger w4 = ledger w3"
    by blast
  have "snd (main C E w) =
      say (LogSummary 1 (or_zero (memories res)) (if \<not> dryRun C then Some (or_zero (stored res)) else None))
        w4"
    using fs ss tp ml assms(5-7) by (simp add: main_def Let_def)
  with f2 f3 f4 assms(4) show ?thesis by simp
qed

lemma newline_lines:
  "file_lines (Some (newline_path @ [LF])) = {js ''/home/u/.pi/agent/sessions/a'', js ''b.jsonl''}"
  "newline_path \<notin> {js ''/home/u/.pi/agent/sessions/a'', js ''b.jsonl''}"
  by (auto simp: file_lines_def newline_path_def newline_name_def js_def LF_def)

lemma newline_found:
  "fst (find_sessions example_config newline_env w) = [\<lparr>path = newline_path, name = newline_name\<rparr>]"
  by (simp add: find_sessions_def Let_def session.truncate_def example_config_def newline_env_def
      findRecentSessions_def scanDir_def example_env_def newline_path_def newline_name_def
      path_join_def endsWith_def js_def at_least_def cutoff_of_def)

text \<open>
  C1 at a failing input. The one transcript in the sessions directory has a file name
  that holds a line feed, and the ledger file can be written. The first run stores the
  three memories of the transcript and appends its path to the ledger; the second run
  reads the ledger as two other lines, does not filter the session, and stores the
  memories again.
\<close>

theorem newline_path_stored_twice:
  "store_calls (snd (main example_config newline_env empty_world)) = example_requests newline_path
   \<and> ledger (snd (main example_config newline_env empty_world)) = Some (newline_path @ [LF])
   \<and> newline_path \<notin> getProcessedSessions (snd (main example_config newline_env empty_world))
   \<and> store_calls (snd (main example_config newline_env
                          (snd (main example_config newline_env empty_world))))
        = example_requests newline_path @ example_requests newline_path"
proof -
  have e: "nops newline_env = example_numops"
    "readFile newline_env newline_path = Some example_transcript"
    "pi_exec newline_env = (\<lambda>n t. Stdout example_reply)"
    "token_set newline_env" "pi_found newline_env" "health_ok newline_env"
    by (simp_all add: newline_env_def example_env_def)
  have ya: "\<And>n l. append_ok newline_env n l"
    by (simp add: newline_env_def example_env_def)
  have d: "\<not> dryRun example_config" by (simp add: example_config_def)
  let ?w1 = "snd (main example_config newline_env empty_world)"
  have n0: "newline_path \<notin> getProcessedSessions empty_world"
    by (simp add: getProcessedSessions_def empty_world_def)
  from ex_main_any [OF e(1-3) d e(4-6) newline_found _ n0] ya
  have 1: "store_calls ?w1 = example_requests newline_path"
    "ledger ?w1 = Some (newline_path @ [LF])"
    by (simp_all add: empty_world_def appendFile_def)
  have n1: "newline_path \<notin> getProcessedSessions ?w1"
    using 1(2) newline_lines by (simp add: getProcessedSessions_lines)
  from ex_main_any [OF e(1-3) d e(4-6) newline_found _ n1] 1 ya
  have "store_calls (snd (main example_config newline_env ?w1))
        = example_requests newline_path @ example_requests newline_path"
    by simp
  with 1 n1 show ?thesis by simp
qed







lemma ex_tree_listing:
  "transcripts (js ''/s'') example_tree =
     [(js ''/s/a.jsonl'', js ''a.jsonl'', Some 999999999),
      (js ''/s/e/b.jsonl'', js ''b.jsonl'', Some 1000000005),
      (js ''/s/e/old.jsonl'', js ''old.jsonl'', Some 0)]"
  by (simp add: example_tree_def path_join_def endsWith_def js_def)

theorem discovery_contract_witness:
  "all_stats (transcripts (js ''/s'') example_tree)
   \<and> findRecentSessions 1000000000 (js ''/s'') (Some example_tree) (Some 24)
       = [\<lparr>path = js ''/s/e/b.jsonl'', name = js ''b.jsonl'', mtime = 1000000005\<rparr>,
          \<lparr>path = js ''/s/a.jsonl'', name = js ''a.jsonl'', mtime = 999999999\<rparr>]"
proof -
  have a: "all_stats (transcripts (js ''/s'') example_tree)"
    by (simp add: ex_tree_listing all_stats_def)
  have "recent (cutoff_of 1000000000 (Some 24)) (transcripts (js ''/s'') example_tree)
      = [\<lparr>path = js ''/s/a.jsonl'', name = js ''a.jsonl'', mtime = 999999999\<rparr>,
         \<lparr>path = js ''/s/e/b.jsonl'', name = js ''b.jsonl'', mtime = 1000000005\<rparr>]"
    by (simp add: ex_tree_listing recent_def map_filter_def at_least_def cutoff_of_def)
  with a discovery_contract [of 1000000000 "js ''/s''" "Some example_tree" "Some 24" example_tree]
  show ?thesis by simp
qed

theorem elements_returned_unchecked_witness:
  "match_array (strip_fence (trim unchecked_reply)) = Some unchecked_reply
   \<and> JSON_parse unchecked_reply =
       Some (JArray [JObject [(js ''type'', JString (js ''Insight''))],
                     JObject [(js ''content'', JString []), (js ''importance'', JString (js ''high''))],
                     JNumber (js ''7'')])
   \<and> fst (extractMemories (example_env\<lparr>pi_exec := \<lambda>n t. Stdout unchecked_reply\<rparr>) [] empty_world)
       = Inr [JObject [(js ''type'', JString (js ''Insight''))],
              JObject [(js ''content'', JString []), (js ''importance'', JString (js ''high''))],
              JNumber (js ''7'')]
   \<and> unchecked_reply \<noteq> []
   \<and> callGeminiForExtraction example_numops True
        (\<lambda>t. GResponse True (Some (gemini_body unchecked_reply))) []
       = Inr [JObject [(js ''type'', JString (js ''Insight''))],
              JObject [(js ''content'', JString []), (js ''importance'', JString (js ''high''))],
              JNumber (js ''7'')]"
proof -
  have ne: "unchecked_reply \<noteq> []" by (simp add: unchecked_reply_def js_def)
  from elements_returned_unchecked [of unchecked_reply unchecked_reply _ example_env "[]" empty_world
      example_numops] unchecked_plain unchecked_parse ne
  show ?thesis by simp
qed





end
